theory Spec2Isabelle
  imports Complex_Main "HOL-Library.Log_Nat"
begin

section \<open>Python values, exceptions and rows\<close>

text \<open>
  Both programs read their input with \<^verbatim>\<open>csv.DictReader\<close>: a dataset is a list of
  dictionaries from column names to field values. A field value is a string, or
  \<^verbatim>\<open>None\<close> when the row is shorter than the header. A column that the header does
  not have is a key that is absent from the dictionary.

  Strings are lists of 8-bit characters; the model of \<^verbatim>\<open>int()\<close> below is the one
  of CPython for ASCII text (digits and spaces outside ASCII, and the limit that recent
  versions put on the number of digits of a literal, are not modelled).
\<close>

datatype pyval = PNone | PStr string

datatype py_error =
  KeyError | ValueError | TypeError | AttributeError | ZeroDivisionError
  | FileNotFoundError | OSError

type_synonym row = "string \<rightharpoonup> pyval"

text \<open>\<^verbatim>\<open>row[k]\<close> raises KeyError on an absent key; \<^verbatim>\<open>row.get(k)\<close> gives None.\<close>

definition getitem :: "row \<Rightarrow> string \<Rightarrow> py_error + pyval" where
  "getitem r k = (case r k of None \<Rightarrow> Inl KeyError | Some v \<Rightarrow> Inr v)"

definition get :: "row \<Rightarrow> string \<Rightarrow> pyval" where
  "get r k = (case r k of None \<Rightarrow> PNone | Some v \<Rightarrow> v)"

definition get_default :: "row \<Rightarrow> string \<Rightarrow> pyval \<Rightarrow> pyval" where
  "get_default r k d = (case r k of None \<Rightarrow> d | Some v \<Rightarrow> v)"

text \<open>Truth value of a field: \<^verbatim>\<open>None\<close> and the empty string are false.\<close>

fun truthy :: "pyval \<Rightarrow> bool" where
  "truthy PNone = False"
| "truthy (PStr s) = (s \<noteq> [])"

text \<open>Sequencing of computations that may raise: the first exception wins.\<close>

definition bind_e :: "py_error + 'a \<Rightarrow> ('a \<Rightarrow> py_error + 'b) \<Rightarrow> py_error + 'b" where
  "bind_e x f = (case x of Inl e \<Rightarrow> Inl e | Inr v \<Rightarrow> f v)"

subsection \<open>\<^verbatim>\<open>s.split(':')[0]\<close> and \<^verbatim>\<open>int(s)\<close>\<close>

definition split_first :: "string \<Rightarrow> string" where
  "split_first s = takeWhile (\<lambda>c. c \<noteq> CHR '':'') s"

definition is_space :: "char \<Rightarrow> bool" where
  "is_space c \<longleftrightarrow> c \<in> set [CHR '' '', CHR 0x09, CHR 0x0A, CHR 0x0B, CHR 0x0C, CHR 0x0D]"

definition is_digit :: "char \<Rightarrow> bool" where
  "is_digit c \<longleftrightarrow> c \<in> set ''0123456789''"

definition digit_val :: "char \<Rightarrow> nat" where
  "digit_val c = of_char c - 48"

text \<open>
  A decimal literal is a digit followed by digits, with single underscores allowed
  between two digits.
\<close>

fun digits_tail :: "nat \<Rightarrow> string \<Rightarrow> nat option" where
  "digits_tail acc [] = Some acc"
| "digits_tail acc (c # cs) =
     (if is_digit c then digits_tail (10 * acc + digit_val c) cs
      else if c = CHR ''_'' then
        (case cs of
           [] \<Rightarrow> None
         | d # ds \<Rightarrow> if is_digit d then digits_tail (10 * acc + digit_val d) ds else None)
      else None)"

definition digits :: "string \<Rightarrow> nat option" where
  "digits s =
     (case s of
        [] \<Rightarrow> None
      | c # cs \<Rightarrow> if is_digit c then digits_tail (digit_val c) cs else None)"

definition strip :: "string \<Rightarrow> string" where
  "strip s = rev (dropWhile is_space (rev (dropWhile is_space s)))"

text \<open>\<^verbatim>\<open>int(s)\<close> on a string: \<open>None\<close> stands for ValueError.\<close>

definition py_int :: "string \<Rightarrow> int option" where
  "py_int s =
     (case strip s of
        [] \<Rightarrow> None
      | c # cs \<Rightarrow>
          if c = CHR ''-'' then map_option (\<lambda>n. - int n) (digits cs)
          else if c = CHR ''+'' then map_option int (digits cs)
          else map_option int (digits (c # cs)))"

text \<open>\<^verbatim>\<open>int(v)\<close> on a field value: \<^verbatim>\<open>int(None)\<close> raises TypeError.\<close>

fun int_of :: "pyval \<Rightarrow> py_error + int" where
  "int_of PNone = Inl TypeError"
| "int_of (PStr s) = (case py_int s of None \<Rightarrow> Inl ValueError | Some n \<Rightarrow> Inr n)"

subsection \<open>Floating point: true division, multiplication and \<^verbatim>\<open>round\<close>\<close>

text \<open>
  A Python float is an IEEE 754 binary64 number; a finite one is modelled by its exact
  value, a rational. Division of two integers and multiplication of two floats return
  the exact result rounded to the nearest number with a 53-bit significand, ties to the
  even significand. The operands here are list lengths (below \<open>2 ^ 63\<close> in CPython) and
  the factor 100, so results stay far inside the exponent range and neither overflow
  nor subnormal numbers occur; the exponent is therefore not bounded in the model.
\<close>

definition round_half_even :: "rat \<Rightarrow> int" where
  "round_half_even x =
     (let f = \<lfloor>x\<rfloor>; d = x - of_int f
      in if d < 1 / 2 then f
         else if 1 / 2 < d then f + 1
         else if even f then f else f + 1)"

text \<open>For \<open>0 < q\<close>, the exponent \<open>e\<close> with \<open>2 ^ e \<le> q < 2 ^ (e + 1)\<close>.\<close>

definition binary_exponent :: "rat \<Rightarrow> int" where
  "binary_exponent q =
     (case quotient_of q of (a, b) \<Rightarrow>
        let d = bitlen a - bitlen b
        in if (2::rat) powi d \<le> q then d else d - 1)"

definition binary64 :: "rat \<Rightarrow> rat" where
  "binary64 q =
     (if q = 0 then 0
      else let u = (2::rat) powi (binary_exponent \<bar>q\<bar> - 52)
           in of_int (round_half_even (q / u)) * u)"

text \<open>\<^verbatim>\<open>a / b\<close> on two integers (here: counts).\<close>

definition int_truediv :: "nat \<Rightarrow> nat \<Rightarrow> py_error + rat" where
  "int_truediv a b =
     (if b = 0 then Inl ZeroDivisionError else Inr (binary64 (of_nat a / of_nat b)))"

definition float_mul :: "rat \<Rightarrow> rat \<Rightarrow> rat" where
  "float_mul x y = binary64 (x * y)"

text \<open>\<^verbatim>\<open>round(x)\<close> on a float: the nearest integer, ties to the even one.\<close>

definition py_round :: "rat \<Rightarrow> int" where
  "py_round x = round_half_even x"

section \<open>The metric aggregator (\<^verbatim>\<open>template_cw_a_b_c.py\<close>)\<close>

text \<open>\<^verbatim>\<open>process_csv_data(filename)\<close>: the file system is a map from names to datasets.\<close>

definition process_csv_data :: "(string \<rightharpoonup> row list) \<Rightarrow> string \<Rightarrow> py_error + row list" where
  "process_csv_data fs filename =
     (case fs filename of None \<Rightarrow> Inl FileNotFoundError | Some data \<Rightarrow> Inr data)"

text \<open>
  \<^verbatim>\<open>sum(1 for row in data if cond(row))\<close>: the rows are visited in order and the first
  exception raised by the condition ends the sum.
\<close>

fun count_rows :: "(row \<Rightarrow> py_error + bool) \<Rightarrow> row list \<Rightarrow> py_error + nat" where
  "count_rows cond [] = Inr 0"
| "count_rows cond (r # rs) =
     (case cond r of
        Inl e \<Rightarrow> Inl e
      | Inr b \<Rightarrow>
          (case count_rows cond rs of
             Inl e \<Rightarrow> Inl e
           | Inr n \<Rightarrow> Inr (if b then Suc n else n)))"

text \<open>\<^verbatim>\<open>[row for row in data if cond(row)]\<close>\<close>

fun select_rows :: "(row \<Rightarrow> py_error + bool) \<Rightarrow> row list \<Rightarrow> py_error + row list" where
  "select_rows cond [] = Inr []"
| "select_rows cond (r # rs) =
     (case cond r of
        Inl e \<Rightarrow> Inl e
      | Inr b \<Rightarrow>
          (case select_rows cond rs of
             Inl e \<Rightarrow> Inl e
           | Inr sel \<Rightarrow> Inr (if b then r # sel else sel)))"

text \<open>The conditions of the sums, in the order of the source (lines 89 to 106).\<close>

definition is_truck :: "row \<Rightarrow> py_error + bool" where
  "is_truck r = bind_e (getitem r ''VehicleType'') (\<lambda>v. Inr (v = PStr ''Truck''))"

definition is_electric :: "row \<Rightarrow> py_error + bool" where
  "is_electric r = bind_e (getitem r ''elctricHybrid'') (\<lambda>v. Inr (v = PStr ''True''))"

definition is_two_wheeled :: "row \<Rightarrow> py_error + bool" where
  "is_two_wheeled r =
     bind_e (getitem r ''VehicleType'')
       (\<lambda>v. Inr (v \<in> set [PStr ''Bicycle'', PStr ''Motorcycle'', PStr ''Scooter'']))"

text \<open>\<^verbatim>\<open>and\<close> evaluates its right operand only when the left one is true.\<close>

definition is_elm_bus_north :: "row \<Rightarrow> py_error + bool" where
  "is_elm_bus_north r =
     bind_e (getitem r ''JunctionName'') (\<lambda>j.
       if j \<noteq> PStr ''Elm Avenue/Rabbit Road'' then Inr False
       else bind_e (getitem r ''travel_Direction_in'') (\<lambda>d.
         if d \<noteq> PStr ''N'' then Inr False
         else bind_e (getitem r ''VehicleType'') (\<lambda>v. Inr (v = PStr ''Buss''))))"

definition is_no_turn :: "row \<Rightarrow> py_error + bool" where
  "is_no_turn r =
     bind_e (getitem r ''travel_Direction_in'') (\<lambda>a.
       bind_e (getitem r ''travel_Direction_out'') (\<lambda>b. Inr (a = b)))"

text \<open>\<^verbatim>\<open>int(row[k])\<close>\<close>

definition int_field :: "row \<Rightarrow> string \<Rightarrow> py_error + int" where
  "int_field r k = bind_e (getitem r k) int_of"

definition is_over_speed :: "row \<Rightarrow> py_error + bool" where
  "is_over_speed r =
     bind_e (int_field r ''VehicleSpeed'') (\<lambda>speed.
       bind_e (int_field r ''JunctionSpeedLimit'') (\<lambda>limit. Inr (limit < speed)))"

definition is_at :: "string \<Rightarrow> row \<Rightarrow> py_error + bool" where
  "is_at junction r = bind_e (getitem r ''JunctionName'') (\<lambda>j. Inr (j = PStr junction))"

definition is_elm_scooter :: "row \<Rightarrow> py_error + bool" where
  "is_elm_scooter r =
     bind_e (getitem r ''JunctionName'') (\<lambda>j.
       if j \<noteq> PStr ''Elm Avenue/Rabbit Road'' then Inr False
       else bind_e (getitem r ''VehicleType'') (\<lambda>v. Inr (v = PStr ''Scooter'')))"

definition is_bicycle :: "row \<Rightarrow> py_error + bool" where
  "is_bicycle r = bind_e (getitem r ''VehicleType'') (\<lambda>v. Inr (v = PStr ''Bicycle''))"

definition trucks :: "row list \<Rightarrow> py_error + nat" where
  "trucks data = count_rows is_truck data"

definition electric_vehicles :: "row list \<Rightarrow> py_error + nat" where
  "electric_vehicles data = count_rows is_electric data"

definition two_wheeled_vehicles :: "row list \<Rightarrow> py_error + nat" where
  "two_wheeled_vehicles data = count_rows is_two_wheeled data"

definition elm_buses_north :: "row list \<Rightarrow> py_error + nat" where
  "elm_buses_north data = count_rows is_elm_bus_north data"

definition no_turns :: "row list \<Rightarrow> py_error + nat" where
  "no_turns data = count_rows is_no_turn data"

definition over_speed :: "row list \<Rightarrow> py_error + nat" where
  "over_speed data = count_rows is_over_speed data"

definition elm_avenue_vehicles :: "row list \<Rightarrow> py_error + nat" where
  "elm_avenue_vehicles data = count_rows (is_at ''Elm Avenue/Rabbit Road'') data"

definition hanley_highway_vehicles :: "row list \<Rightarrow> py_error + nat" where
  "hanley_highway_vehicles data = count_rows (is_at ''Hanley Highway/Westway'') data"

definition elm_scooters :: "row list \<Rightarrow> py_error + nat" where
  "elm_scooters data = count_rows is_elm_scooter data"

text \<open>
  \<^verbatim>\<open>round((matching / whole) * 100) if whole else 0\<close>, the expression of lines 107
  and 142.
\<close>

definition percentage :: "nat \<Rightarrow> nat \<Rightarrow> py_error + int" where
  "percentage matching whole =
     (if whole \<noteq> 0
      then bind_e (int_truediv matching whole) (\<lambda>q. Inr (py_round (float_mul q 100)))
      else Inr 0)"

text \<open>
  A \<^verbatim>\<open>defaultdict(int)\<close> keeps its keys in the order of their first insertion:
  an association list. \<^verbatim>\<open>d[hour] += 1\<close> is \<open>incr\<close>.
\<close>

type_synonym hour_counts = "(string \<times> nat) list"

fun incr :: "string \<Rightarrow> hour_counts \<Rightarrow> hour_counts" where
  "incr k [] = [(k, 1)]"
| "incr k ((k', c) # d) = (if k = k' then (k', c + 1) # d else (k', c) # incr k d)"

text \<open>Lines 112 to 116: the loop over the bicycle rows.\<close>

fun bicycle_count_per_hour :: "row list \<Rightarrow> hour_counts \<Rightarrow> hour_counts" where
  "bicycle_count_per_hour [] d = d"
| "bicycle_count_per_hour (r # rs) d =
     (case get r ''timeOfDay'' of
        PNone \<Rightarrow> bicycle_count_per_hour rs d
      | PStr hour \<Rightarrow>
          if hour \<noteq> [] then bicycle_count_per_hour rs (incr (split_first hour) d)
          else bicycle_count_per_hour rs d)"

text \<open>Line 117.\<close>

definition avg_bicycles_per_hour :: "hour_counts \<Rightarrow> py_error + int" where
  "avg_bicycles_per_hour d =
     (if d \<noteq> []
      then bind_e (int_truediv (sum_list (map snd d)) (length d)) (\<lambda>q. Inr (py_round q))
      else Inr 0)"

text \<open>Lines 121 to 126: the loop over all rows, which reads \<^verbatim>\<open>row['JunctionName']\<close>.\<close>

fun hanley_peak_hour :: "row list \<Rightarrow> hour_counts \<Rightarrow> py_error + hour_counts" where
  "hanley_peak_hour [] d = Inr d"
| "hanley_peak_hour (r # rs) d =
     (case getitem r ''JunctionName'' of
        Inl e \<Rightarrow> Inl e
      | Inr j \<Rightarrow>
          if j = PStr ''Hanley Highway/Westway'' then
            (case get r ''timeOfDay'' of
               PNone \<Rightarrow> hanley_peak_hour rs d
             | PStr hour \<Rightarrow>
                 if hour \<noteq> [] then hanley_peak_hour rs (incr (split_first hour) d)
                 else hanley_peak_hour rs d)
          else hanley_peak_hour rs d)"

text \<open>\<^verbatim>\<open>max(xs)\<close> raises ValueError on an empty sequence.\<close>

fun py_max :: "nat list \<Rightarrow> py_error + nat" where
  "py_max [] = Inl ValueError"
| "py_max (x # xs) = Inr (fold max xs x)"

text \<open>Lines 127 and 128.\<close>

definition peak_hour_count :: "hour_counts \<Rightarrow> py_error + nat" where
  "peak_hour_count d = (if d \<noteq> [] then py_max (map snd d) else Inr 0)"

definition peak_hours :: "hour_counts \<Rightarrow> nat \<Rightarrow> string list" where
  "peak_hours d peak = map fst (filter (\<lambda>(hour, count). count = peak) d)"

text \<open>Line 131.\<close>

definition rain_hours :: "row list \<Rightarrow> nat" where
  "rain_hours data = length (filter (\<lambda>r. get r ''timeOfDay'' = PStr ''True'') data)"

text \<open>The result dictionary of lines 133 to 150, one field for each key.\<close>

record results =
  CSV_File_Name :: string
  Total_Vehicles :: nat
  Total_Trucks :: nat
  Electric_Vehicles :: nat
  Two_Wheeled_Vehicles :: nat
  Elm_Buses_North :: nat
  No_Turns :: nat
  Over_Speeding :: nat
  Truck_Percentage :: int
  Avg_Bicycles_per_Hour :: int
  Over_Speeding_Vehicles :: nat
  Elm_Avenue_Rabbit_Road_Vehicles :: nat
  Hanley_Highway_Westway_Vehicles :: nat
  Scooter_Percentage_Elm_Avenue :: int
  Peak_Hours_Hanley_Highway_Westway :: "string list"
  Total_Rain_Hours :: nat

definition analyze_data :: "row list \<Rightarrow> string \<Rightarrow> py_error + results" where
  "analyze_data data filename =
     (let total_vehicles = length data in
      bind_e (trucks data) (\<lambda>n_trucks.
      bind_e (electric_vehicles data) (\<lambda>n_electric.
      bind_e (two_wheeled_vehicles data) (\<lambda>n_two_wheeled.
      bind_e (elm_buses_north data) (\<lambda>n_elm_buses.
      bind_e (no_turns data) (\<lambda>n_no_turns.
      bind_e (over_speed data) (\<lambda>n_over_speed.
      bind_e (elm_avenue_vehicles data) (\<lambda>n_elm.
      bind_e (hanley_highway_vehicles data) (\<lambda>n_hanley.
      bind_e (elm_scooters data) (\<lambda>n_elm_scooters.
      bind_e (percentage n_elm_scooters n_elm) (\<lambda>elm_scooter_percentage.
      bind_e (select_rows is_bicycle data) (\<lambda>bicycle_data.
      bind_e (avg_bicycles_per_hour (bicycle_count_per_hour bicycle_data [])) (\<lambda>avg.
      bind_e (hanley_peak_hour data []) (\<lambda>hanley.
      bind_e (peak_hour_count hanley) (\<lambda>peak.
      bind_e (percentage n_trucks total_vehicles) (\<lambda>truck_percentage.
      Inr \<lparr> CSV_File_Name = filename,
            Total_Vehicles = total_vehicles,
            Total_Trucks = n_trucks,
            Electric_Vehicles = n_electric,
            Two_Wheeled_Vehicles = n_two_wheeled,
            Elm_Buses_North = n_elm_buses,
            No_Turns = n_no_turns,
            Over_Speeding = n_over_speed,
            Truck_Percentage = truck_percentage,
            Avg_Bicycles_per_Hour = avg,
            Over_Speeding_Vehicles = n_over_speed,
            Elm_Avenue_Rabbit_Road_Vehicles = n_elm,
            Hanley_Highway_Westway_Vehicles = n_hanley,
            Scooter_Percentage_Elm_Avenue = elm_scooter_percentage,
            Peak_Hours_Hanley_Highway_Westway = peak_hours hanley peak,
            Total_Rain_Hours = rain_hours data \<rparr>))))))))))))))))"

text \<open>
  One pass of the loop of \<^verbatim>\<open>main\<close> (lines 181 to 197): the \<^verbatim>\<open>try\<close> block and
  its two handlers, \<^verbatim>\<open>except FileNotFoundError\<close> and \<^verbatim>\<open>except Exception\<close>.
\<close>

datatype pass_report =
  Results_saved results
  | File_not_found
  | An_error_occurred py_error

definition main_pass :: "(string \<rightharpoonup> row list) \<Rightarrow> string \<Rightarrow> pass_report" where
  "main_pass fs date_input =
     (case bind_e (process_csv_data fs date_input) (\<lambda>data. analyze_data data date_input) of
        Inr res \<Rightarrow> Results_saved res
      | Inl e \<Rightarrow> if e = FileNotFoundError then File_not_found else An_error_occurred e)"

section \<open>The hourly grouping engine (\<^verbatim>\<open>template_cw_d_e.py\<close>)\<close>

text \<open>
  \<^verbatim>\<open>traffic_summary\<close> is a dictionary from the hour (an integer) to a dictionary from
  the junction name to the volume. The drawing code sorts the keys, so the order of
  insertion is not kept here.
\<close>

type_synonym summary = "int \<rightharpoonup> (string \<rightharpoonup> nat)"

record processor =
  current_data :: "row list option"
  date :: pyval
  traffic_summary :: summary

text \<open>\<^verbatim>\<open>MultiCSVProcessor.__init__\<close>\<close>

definition init_processor :: processor where
  "init_processor = \<lparr> current_data = None, date = PNone, traffic_summary = Map.empty \<rparr>"

text \<open>\<^verbatim>\<open>clear_previous_data\<close> (lines 145 to 151).\<close>

definition clear_previous_data :: "processor \<Rightarrow> processor" where
  "clear_previous_data s = s\<lparr> current_data := None, date := PNone, traffic_summary := Map.empty \<rparr>"

text \<open>
  Line 126, \<^verbatim>\<open>int(row['timeOfDay'].split(':')[0])\<close>: KeyError when the column is
  absent, AttributeError when the field is \<^verbatim>\<open>None\<close>, ValueError when the text before
  the first colon is not an integer literal.
\<close>

definition extract_hour :: "row \<Rightarrow> py_error + int" where
  "extract_hour r =
     (case r ''timeOfDay'' of
        None \<Rightarrow> Inl KeyError
      | Some PNone \<Rightarrow> Inl AttributeError
      | Some (PStr s) \<Rightarrow>
          (case py_int (split_first s) of None \<Rightarrow> Inl ValueError | Some h \<Rightarrow> Inr h))"

text \<open>
  Lines 137 to 143: an hour that is not yet a key gets an empty dictionary, a junction
  that is not yet a key of it gets 0, then the volume is increased by one.
\<close>

definition add_vehicle :: "int \<Rightarrow> string \<Rightarrow> summary \<Rightarrow> summary" where
  "add_vehicle hour junction t =
     (let inner = (case t hour of None \<Rightarrow> Map.empty | Some m \<Rightarrow> m);
          n = (case inner junction of None \<Rightarrow> 0 | Some c \<Rightarrow> c)
      in t(hour \<mapsto> inner(junction \<mapsto> n + 1)))"

text \<open>
  How \<^verbatim>\<open>process_data\<close> ends: it runs through all rows, returns at its guard (line
  116), shows the message box of line 128 or of line 133 and returns, or lets an
  exception escape.
\<close>

datatype process_outcome =
  Completed
  | Returned_early
  | Invalid_Data pyval
  | Missing_Data
  | Raised py_error

text \<open>The loop of lines 120 to 143 over the rows, for the date \<open>d\<close>.\<close>

fun group_rows :: "pyval \<Rightarrow> row list \<Rightarrow> summary \<Rightarrow> process_outcome \<times> summary" where
  "group_rows d [] t = (Completed, t)"
| "group_rows d (r # rs) t =
     (case getitem r ''Date'' of
        Inl e \<Rightarrow> (Raised e, t)
      | Inr rd \<Rightarrow>
          if rd \<noteq> d then group_rows d rs t
          else
            (case extract_hour r of
               Inl e \<Rightarrow>
                 if e = KeyError \<or> e = ValueError then (Invalid_Data (get r ''timeOfDay''), t)
                 else (Raised e, t)
             | Inr hour \<Rightarrow>
                 (case get_default r ''JunctionName'' (PStr ''Unknown'') of
                    PNone \<Rightarrow> (Missing_Data, t)
                  | PStr junction \<Rightarrow>
                      if junction = [] then (Missing_Data, t)
                      else group_rows d rs (add_vehicle hour junction t))))"

text \<open>\<^verbatim>\<open>process_data\<close> (lines 111 to 143).\<close>

definition process_data :: "processor \<Rightarrow> process_outcome \<times> processor" where
  "process_data s =
     (case current_data s of
        None \<Rightarrow> (Returned_early, s)
      | Some [] \<Rightarrow> (Returned_early, s)
      | Some (r # rs) \<Rightarrow>
          if \<not> truthy (date s) then (Returned_early, s)
          else
            (case group_rows (date s) (r # rs) Map.empty of
               (outcome, t) \<Rightarrow> (outcome, s\<lparr> traffic_summary := t \<rparr>)))"

text \<open>
  \<^verbatim>\<open>load_csv_file\<close> (lines 81 to 109). The file dialog and the file system are the
  environment: the user cancels, or the file cannot be opened, or it is read into a
  list of rows. \<^verbatim>\<open>next(iter(dates))\<close> takes the element of a set that its iteration
  reaches first, which for a set of strings is not fixed by the program: the index
  \<open>pick\<close> says which of the distinct dates it is.
\<close>

datatype file_choice = Cancelled | Unreadable | Loaded "row list"

datatype load_outcome =
  No_file_selected
  | Failed_to_load py_error
  | Processed bool process_outcome

fun all_dates :: "row list \<Rightarrow> py_error + pyval list" where
  "all_dates [] = Inr []"
| "all_dates (r # rs) =
     (case getitem r ''Date'' of
        Inl e \<Rightarrow> Inl e
      | Inr v \<Rightarrow> (case all_dates rs of Inl e \<Rightarrow> Inl e | Inr vs \<Rightarrow> Inr (v # vs)))"

definition load_csv_file :: "file_choice \<Rightarrow> nat \<Rightarrow> processor \<Rightarrow> load_outcome \<times> processor" where
  "load_csv_file choice pick s =
     (case choice of
        Cancelled \<Rightarrow> (No_file_selected, s)
      | Unreadable \<Rightarrow> (Failed_to_load OSError, s)
      | Loaded [] \<Rightarrow> (Failed_to_load ValueError, s\<lparr> current_data := Some [] \<rparr>)
      | Loaded (r # rs) \<Rightarrow>
          let s1 = s\<lparr> current_data := Some (r # rs) \<rparr> in
          (case all_dates (r # rs) of
             Inl e \<Rightarrow> (Failed_to_load e, s1)
           | Inr vs \<Rightarrow>
               let dates = remdups vs;
                   s2 = s1\<lparr> date := dates ! (pick mod length dates) \<rparr>;
                   warned = (1 < length dates)
               in (case process_data s2 of
                     (Raised e, s3) \<Rightarrow> (Failed_to_load e, s3)
                   | (outcome, s3) \<Rightarrow> (Processed warned outcome, s3))))"

text \<open>
  One pass of the loop of \<^verbatim>\<open>handle_user_interaction\<close> (lines 158 and 159), up to the
  point where the summary is handed to the histogram.
\<close>

definition session_pass :: "file_choice \<Rightarrow> nat \<Rightarrow> processor \<Rightarrow> load_outcome \<times> processor" where
  "session_pass choice pick s = load_csv_file choice pick (clear_previous_data s)"

text \<open>
  The volume that the histogram draws for an hour and a junction:
  \<^verbatim>\<open>self.traffic_data[hour].get(junction, 0)\<close> (line 43), and nothing for an hour that
  is not a key.
\<close>

definition volume :: "summary \<Rightarrow> int \<Rightarrow> string \<Rightarrow> nat" where
  "volume t hour junction =
     (case t hour of
        None \<Rightarrow> 0
      | Some inner \<Rightarrow> (case inner junction of None \<Rightarrow> 0 | Some n \<Rightarrow> n))"

section \<open>Notions used to state the properties\<close>

text \<open>
  The formula of the specification for a percentage:
  \<^verbatim>\<open>round(matching / total * 100)\<close>, and \<open>0\<close> when the total is \<open>0\<close>.
\<close>

definition spec_percentage :: "nat \<Rightarrow> nat \<Rightarrow> int" where
  "spec_percentage matching whole =
     (if whole = 0 then 0
      else py_round (float_mul (binary64 (of_nat matching / of_nat whole)) 100))"

text \<open>
  The hour bucket of a row in the aggregator (lines 113 to 115 and 123 to 125): a row
  with no time of day, or an empty one, has none.
\<close>

definition hour_bucket :: "row \<Rightarrow> string option" where
  "hour_bucket r =
     (case get r ''timeOfDay'' of
        PNone \<Rightarrow> None
      | PStr hour \<Rightarrow> if hour \<noteq> [] then Some (split_first hour) else None)"

definition field_is :: "string \<Rightarrow> string \<Rightarrow> row \<Rightarrow> bool" where
  "field_is k v r \<longleftrightarrow> r k = Some (PStr v)"

text \<open>The number of rows that satisfy \<open>P\<close> and fall into the bucket \<open>h\<close>.\<close>

definition bucket_count :: "(row \<Rightarrow> bool) \<Rightarrow> row list \<Rightarrow> string \<Rightarrow> nat" where
  "bucket_count P data h = length (filter (\<lambda>r. P r \<and> hour_bucket r = Some h) data)"

text \<open>
  A row that has the seven columns which the counts of the aggregator read with
  \<^verbatim>\<open>row[...]\<close>, each with a string in it.
\<close>

definition has_columns :: "row \<Rightarrow> bool" where
  "has_columns r \<longleftrightarrow>
     list_all (\<lambda>k. case r k of Some (PStr s) \<Rightarrow> True | _ \<Rightarrow> False)
       [''VehicleType'', ''elctricHybrid'', ''JunctionName'', ''travel_Direction_in'',
        ''travel_Direction_out'', ''VehicleSpeed'', ''JunctionSpeedLimit'']"

text \<open>
  A row that the grouping loop counts for the date \<open>d\<close> in the cell of the hour \<open>h\<close> and
  the junction \<open>j\<close> (lines 121, 126 and 131).
\<close>

definition counted_in :: "pyval \<Rightarrow> int \<Rightarrow> string \<Rightarrow> row \<Rightarrow> bool" where
  "counted_in d h j r \<longleftrightarrow>
     r ''Date'' = Some d \<and> extract_hour r = Inr h \<and>
     get_default r ''JunctionName'' (PStr ''Unknown'') = PStr j"

text \<open>
  A row that the grouping loop gets past for the date \<open>d\<close>: it has a date and, if that
  is \<open>d\<close>, an hour can be extracted and the junction name is not empty.
\<close>

definition passes :: "pyval \<Rightarrow> row \<Rightarrow> bool" where
  "passes d r \<longleftrightarrow>
     (case r ''Date'' of
        None \<Rightarrow> False
      | Some rd \<Rightarrow>
          rd \<noteq> d \<or>
          (case extract_hour r of
             Inl e \<Rightarrow> False
           | Inr h \<Rightarrow> truthy (get_default r ''JunctionName'' (PStr ''Unknown''))))"

text \<open>
  The cell of a row as the specification words it: the bucket is the text before the
  first colon of the time of day, and the junction is the junction name of the row.
\<close>

definition spec_counted_in :: "pyval \<Rightarrow> string \<Rightarrow> string \<Rightarrow> row \<Rightarrow> bool" where
  "spec_counted_in d prefix j r \<longleftrightarrow>
     r ''Date'' = Some d \<and>
     (case r ''timeOfDay'' of Some (PStr s) \<Rightarrow> split_first s = prefix | _ \<Rightarrow> False) \<and>
     r ''JunctionName'' = Some (PStr j)"

section \<open>Example data\<close>

text \<open>A row with all nine columns of the input schema.\<close>

definition observation ::
  "string \<Rightarrow> string \<Rightarrow> string \<Rightarrow> string \<Rightarrow> string \<Rightarrow> string \<Rightarrow> string \<Rightarrow> string \<Rightarrow> string \<Rightarrow> row" where
  "observation day time junction vehicle dir_in dir_out speed speed_limit electric =
     map_of [(''Date'', PStr day), (''timeOfDay'', PStr time), (''JunctionName'', PStr junction),
             (''VehicleType'', PStr vehicle), (''travel_Direction_in'', PStr dir_in),
             (''travel_Direction_out'', PStr dir_out), (''VehicleSpeed'', PStr speed),
             (''JunctionSpeedLimit'', PStr speed_limit), (''elctricHybrid'', PStr electric)]"

definition example_data :: "row list" where
  "example_data =
     [observation ''21/06/2024'' ''08:00:10'' ''Hanley Highway/Westway'' ''Truck'' ''N'' ''N'' ''40'' ''30'' ''True'',
      observation ''21/06/2024'' ''08:10:00'' ''Hanley Highway/Westway'' ''Truck'' ''N'' ''S'' ''20'' ''30'' ''False'',
      observation ''21/06/2024'' ''09:05:00'' ''Hanley Highway/Westway'' ''Car'' ''E'' ''W'' ''35'' ''30'' ''False'',
      observation ''21/06/2024'' ''09:50:00'' ''Hanley Highway/Westway'' ''Bicycle'' ''E'' ''E'' ''12'' ''30'' ''False'',
      observation ''21/06/2024'' ''10:00:00'' ''Hanley Highway/Westway'' ''Scooter'' ''S'' ''N'' ''25'' ''30'' ''True'',
      observation ''21/06/2024'' ''8:10:00'' ''Elm Avenue/Rabbit Road'' ''Scooter'' ''N'' ''S'' ''20'' ''20'' ''False'',
      observation ''21/06/2024'' ''09:10:00'' ''Elm Avenue/Rabbit Road'' ''Bicycle'' ''W'' ''S'' ''15'' ''20'' ''False'',
      observation ''21/06/2024'' ''09:30:00'' ''Elm Avenue/Rabbit Road'' ''Buss'' ''N'' ''S'' ''25'' ''20'' ''False'']"

definition example_results :: results where
  "example_results =
     \<lparr> CSV_File_Name = ''traffic_data21062024.csv'',
       Total_Vehicles = 8,
       Total_Trucks = 2,
       Electric_Vehicles = 2,
       Two_Wheeled_Vehicles = 4,
       Elm_Buses_North = 1,
       No_Turns = 2,
       Over_Speeding = 3,
       Truck_Percentage = 25,
       Avg_Bicycles_per_Hour = 2,
       Over_Speeding_Vehicles = 3,
       Elm_Avenue_Rabbit_Road_Vehicles = 3,
       Hanley_Highway_Westway_Vehicles = 5,
       Scooter_Percentage_Elm_Avenue = 33,
       Peak_Hours_Hanley_Highway_Westway = [''08'', ''09''],
       Total_Rain_Hours = 0 \<rparr>"

text \<open>The bucket counts of the example of the specification.\<close>

definition example_counts :: hour_counts where
  "example_counts = [(''08'', 5), (''09'', 5), (''10'', 3)]"

text \<open>The result of the analysis of an empty dataset.\<close>

definition empty_results :: "string \<Rightarrow> results" where
  "empty_results filename =
     \<lparr> CSV_File_Name = filename,
       Total_Vehicles = 0,
       Total_Trucks = 0,
       Electric_Vehicles = 0,
       Two_Wheeled_Vehicles = 0,
       Elm_Buses_North = 0,
       No_Turns = 0,
       Over_Speeding = 0,
       Truck_Percentage = 0,
       Avg_Bicycles_per_Hour = 0,
       Over_Speeding_Vehicles = 0,
       Elm_Avenue_Rabbit_Road_Vehicles = 0,
       Hanley_Highway_Westway_Vehicles = 0,
       Scooter_Percentage_Elm_Avenue = 0,
       Peak_Hours_Hanley_Highway_Westway = [],
       Total_Rain_Hours = 0 \<rparr>"

text \<open>The scenario of the specification: a speed that is not a number.\<close>

definition bad_speed_data :: "row list" where
  "bad_speed_data =
     [observation ''21/06/2024'' ''08:00:00'' ''Hanley Highway/Westway'' ''Car'' ''N'' ''S'' ''abc'' ''30'' ''False'']"

text \<open>A file whose header has three columns only.\<close>

definition missing_column_data :: "row list" where
  "missing_column_data =
     [map_of [(''Date'', PStr ''21/06/2024''), (''timeOfDay'', PStr ''08:00:00''),
              (''JunctionName'', PStr ''Hanley Highway/Westway'')]]"

text \<open>Two rows of one junction whose hours are written \<^verbatim>\<open>08\<close> and \<^verbatim>\<open>8\<close>.\<close>

definition collision_data :: "row list" where
  "collision_data =
     [observation ''21/06/2024'' ''08:00:00'' ''Birmingham Road'' ''Car'' ''N'' ''S'' ''30'' ''30'' ''False'',
      observation ''21/06/2024'' ''8:30:00'' ''Birmingham Road'' ''Car'' ''N'' ''S'' ''30'' ''30'' ''False'']"

text \<open>A file with no column JunctionName.\<close>

definition no_junction_data :: "row list" where
  "no_junction_data =
     [map_of [(''Date'', PStr ''21/06/2024''), (''timeOfDay'', PStr ''08:00:00'')]]"

text \<open>A row of another date with an empty time of day.\<close>

definition other_date_data :: "row list" where
  "other_date_data =
     [observation ''21/06/2024'' ''08:00:00'' ''Birmingham Road'' ''Car'' ''N'' ''S'' ''30'' ''30'' ''False'',
      observation ''22/06/2024'' [] ''Birmingham Road'' ''Car'' ''N'' ''S'' ''30'' ''30'' ''False'']"

text \<open>A row with an empty time of day between two rows that are in order.\<close>

definition broken_data :: "row list" where
  "broken_data =
     [observation ''21/06/2024'' ''08:00:00'' ''Birmingham Road'' ''Car'' ''N'' ''S'' ''30'' ''30'' ''False'',
      observation ''21/06/2024'' [] ''Birmingham Road'' ''Car'' ''N'' ''S'' ''30'' ''30'' ''False'',
      observation ''21/06/2024'' ''09:00:00'' ''Birmingham Road'' ''Car'' ''N'' ''S'' ''30'' ''30'' ''False'']"

text \<open>The processor after a file has been read and its date chosen, with any summary.\<close>

definition loaded :: "row list \<Rightarrow> summary \<Rightarrow> processor" where
  "loaded rows t = \<lparr> current_data = Some rows, date = PStr ''21/06/2024'', traffic_summary = t \<rparr>"

text \<open>A summary left behind by an earlier dataset.\<close>

definition stale_summary :: summary where
  "stale_summary = [17 \<mapsto> [''Elm Avenue/Rabbit Road'' \<mapsto> 4]]"

section \<open>Auxiliary facts\<close>

subsection \<open>Rounding to binary64\<close>

text \<open>
  The value \<open>binary64 q\<close> of a positive rational \<open>q\<close> is a number \<open>m * 2 ^ (e - 52)\<close>
  with a significand \<open>m\<close> of 53 bits, in the binade of \<open>q\<close>, at most half a unit in the
  last place away from \<open>q\<close>, and with an even significand when it is exactly half a unit
  away: the rounding of IEEE 754 to the nearest number, ties to even.
\<close>

lemma round_half_even_near: "\<bar>of_int (round_half_even x) - x\<bar> \<le> 1 / 2"
proof -
  have "of_int \<lfloor>x\<rfloor> \<le> x" "x < of_int \<lfloor>x\<rfloor> + 1"
    by linarith+
  then show ?thesis
    by (auto simp: round_half_even_def Let_def abs_le_iff)
qed

lemma bitlen_powi:
  assumes "0 < a"
  shows "(2::rat) powi (bitlen a - 1) \<le> of_int a" "of_int a < (2::rat) powi (bitlen a)"
proof -
  from bitlen_bounds [OF assms] have b: "2 ^ nat (bitlen a - 1) \<le> a" "a < 2 ^ nat (bitlen a)"
    by simp_all
  have pos: "1 \<le> bitlen a"
    using assms by (auto simp: bitlen_alt_def)
  have "(2::rat) powi (bitlen a - 1) = 2 ^ nat (bitlen a - 1)"
    using pos by (simp add: power_int_def)
  also have "\<dots> = of_int (2 ^ nat (bitlen a - 1))"
    by simp
  also have "\<dots> \<le> of_int a"
    using b(1) by (simp only: of_int_le_iff)
  finally show "(2::rat) powi (bitlen a - 1) \<le> of_int a" .
  have "(of_int a :: rat) < of_int (2 ^ nat (bitlen a))"
    using b(2) by (simp only: of_int_less_iff)
  also have "\<dots> = 2 ^ nat (bitlen a)"
    by simp
  also have "\<dots> = (2::rat) powi (bitlen a)"
    using pos by (simp add: power_int_def)
  finally show "of_int a < (2::rat) powi (bitlen a)" .
qed

lemma binary_exponent_bounds:
  assumes "0 < q"
  shows "(2::rat) powi (binary_exponent q) \<le> q \<and> q < (2::rat) powi (binary_exponent q + 1)"
proof -
  obtain a b where ab: "quotient_of q = (a, b)"
    by (cases "quotient_of q")
  then have b: "0 < b" and q: "q = of_int a / of_int b"
    by (simp_all add: quotient_of_denom_pos quotient_of_div)
  have a: "0 < a"
    using assms b q by (simp add: zero_less_divide_iff)
  let ?d = "bitlen a - bitlen b"
  have "q < 2 powi (bitlen a) / 2 powi (bitlen b - 1)"
    unfolding q using bitlen_powi [OF a] bitlen_powi [OF b] a b
    by (intro frac_less) simp_all
  also have "\<dots> = 2 powi (bitlen a - (bitlen b - 1))"
    by (subst power_int_diff) simp_all
  also have "bitlen a - (bitlen b - 1) = ?d + 1"
    by simp
  finally have up: "q < 2 powi (?d + 1)" .
  have eq: "?d - 1 = bitlen a - 1 - bitlen b"
    by simp
  have "(2::rat) powi (?d - 1) = 2 powi (bitlen a - 1 - bitlen b)"
    by (rule arg_cong [OF eq])
  also have "\<dots> = 2 powi (bitlen a - 1) / 2 powi (bitlen b)"
    by (rule power_int_diff) simp
  also have "\<dots> \<le> q"
    unfolding q using bitlen_powi [OF a] bitlen_powi [OF b] a b
    by (intro frac_le) simp_all
  finally have low: "(2::rat) powi (?d - 1) \<le> q" .
  show ?thesis
    using up low by (auto simp: binary_exponent_def ab Let_def not_le)
qed


lemma round_half_even_ge: "of_int n \<le> x \<Longrightarrow> n \<le> round_half_even x"
proof -
  assume "of_int n \<le> x"
  then have "n \<le> \<lfloor>x\<rfloor>"
    by (simp add: le_floor_iff)
  then show ?thesis
    by (auto simp: round_half_even_def Let_def)
qed

lemma round_half_even_le: "x \<le> of_int n \<Longrightarrow> round_half_even x \<le> n"
proof -
  assume x: "x \<le> of_int n"
  show ?thesis
  proof (cases "x = of_int n")
    case True
    then show ?thesis
      by (simp add: round_half_even_def)
  next
    case False
    with x have "x < of_int n"
      by simp
    then have "\<lfloor>x\<rfloor> < n"
      by (simp add: floor_less_iff)
    then show ?thesis
      by (auto simp: round_half_even_def Let_def)
  qed
qed

lemma round_half_even_tie:
  assumes "\<bar>of_int (round_half_even x) - x\<bar> = 1 / 2"
  shows "even (round_half_even x)"
proof -
  define d where "d = x - of_int \<lfloor>x\<rfloor>"
  have d: "0 \<le> d" "d < 1"
    unfolding d_def by linarith+
  have x: "x = of_int \<lfloor>x\<rfloor> + d"
    by (simp add: d_def)
  consider "d < 1 / 2" | "1 / 2 < d" | "d = 1 / 2"
    by linarith
  then show ?thesis
  proof cases
    case 1
    then have "round_half_even x = \<lfloor>x\<rfloor>"
      by (simp add: round_half_even_def Let_def d_def)
    with assms 1 d show ?thesis
      by (simp add: d_def)
  next
    case 2
    then have "round_half_even x = \<lfloor>x\<rfloor> + 1"
      by (simp add: round_half_even_def Let_def d_def)
    with assms 2 d show ?thesis
      by (simp add: d_def)
  next
    case 3
    then show ?thesis
      by (simp add: round_half_even_def Let_def d_def)
  qed
qed

lemma binary64_nearest:
  assumes "0 < q"
  shows "\<exists>m e. binary64 q = of_int m * 2 powi (e - 52) \<and>
           2 ^ 52 \<le> m \<and> m \<le> 2 ^ 53 \<and>
           2 powi e \<le> q \<and> q < 2 powi (e + 1) \<and>
           \<bar>binary64 q - q\<bar> \<le> 2 powi (e - 52) / 2 \<and>
           (\<bar>binary64 q - q\<bar> = 2 powi (e - 52) / 2 \<longrightarrow> even m)"
proof -
  let ?e = "binary_exponent q"
  let ?u = "(2::rat) powi (?e - 52)"
  let ?m = "round_half_even (q / ?u)"
  have u: "0 < ?u"
    by simp
  have b: "2 powi ?e \<le> q" "q < 2 powi (?e + 1)"
    using binary_exponent_bounds [OF assms] by simp_all
  have v: "binary64 q = of_int ?m * ?u"
    using assms by (simp add: binary64_def Let_def)
  have "(2::rat) powi ?e / ?u = 2 powi (?e - (?e - 52))"
    by (subst power_int_diff) simp_all
  then have e52: "(2::rat) powi ?e / ?u = 2 ^ 52"
    by (simp add: power_int_def)
  have "(2::rat) powi (?e + 1) / ?u = 2 powi (?e + 1 - (?e - 52))"
    by (subst power_int_diff) simp_all
  then have e53: "(2::rat) powi (?e + 1) / ?u = 2 ^ 53"
    by (simp add: power_int_def)
  have "2 powi ?e / ?u \<le> q / ?u"
    using b(1) u by (simp add: divide_right_mono)
  then have lo: "of_int (2 ^ 52) \<le> q / ?u"
    by (simp add: e52)
  have "q / ?u \<le> 2 powi (?e + 1) / ?u"
    using b(2) u by (simp add: divide_right_mono)
  then have hi: "q / ?u \<le> of_int (2 ^ 53)"
    by (simp add: e53)
  have m: "2 ^ 52 \<le> ?m" "?m \<le> 2 ^ 53"
    using round_half_even_ge [OF lo] round_half_even_le [OF hi] by simp_all
  have "binary64 q - q = (of_int ?m - q / ?u) * ?u"
    using u by (simp add: v algebra_simps)
  then have d: "\<bar>binary64 q - q\<bar> = \<bar>of_int ?m - q / ?u\<bar> * ?u"
    using u by (simp add: abs_mult)
  have near: "\<bar>binary64 q - q\<bar> \<le> ?u / 2"
    using round_half_even_near [of "q / ?u"] u unfolding d
    by (simp add: field_simps)
  have tie: "even ?m" if "\<bar>binary64 q - q\<bar> = ?u / 2"
  proof -
    from that u have "\<bar>of_int ?m - q / ?u\<bar> = 1 / 2"
      unfolding d by (simp add: field_simps)
    then show ?thesis
      by (rule round_half_even_tie)
  qed
  from v m b near tie show ?thesis
    by blast
qed

subsection \<open>Sequencing, counting and selecting\<close>

lemma bind_e_Inr_iff: "bind_e x f = Inr y \<longleftrightarrow> (\<exists>v. x = Inr v \<and> f v = Inr y)"
  by (cases x) (simp_all add: bind_e_def)

lemma bind_e_Inl_iff: "bind_e x f = Inl e \<longleftrightarrow> x = Inl e \<or> (\<exists>v. x = Inr v \<and> f v = Inl e)"
  by (cases x) (simp_all add: bind_e_def)

lemma count_rows_Inr_all:
  "count_rows cond rs = Inr n \<Longrightarrow> r \<in> set rs \<Longrightarrow> \<exists>b. cond r = Inr b"
  by (induction rs arbitrary: n) (auto split: sum.splits if_splits)

lemma count_rows_Inr_eq:
  "count_rows cond rs = Inr n \<Longrightarrow> n = length (filter (\<lambda>r. cond r = Inr True) rs)"
  by (induction rs arbitrary: n) (auto split: sum.splits if_splits)

lemma count_rows_total:
  "\<forall>r\<in>set rs. \<exists>b. cond r = Inr b \<Longrightarrow>
     count_rows cond rs = Inr (length (filter (\<lambda>r. cond r = Inr True) rs))"
  by (induction rs) (auto split: sum.splits)

lemma count_rows_Inl:
  "count_rows cond rs = Inl e \<Longrightarrow> \<exists>r\<in>set rs. cond r = Inl e"
  by (induction rs) (auto split: sum.splits)

lemma count_rows_fails:
  "\<exists>r\<in>set rs. \<exists>e. cond r = Inl e \<Longrightarrow> \<exists>e. count_rows cond rs = Inl e"
  by (cases "count_rows cond rs") (auto dest: count_rows_Inr_all)

lemma select_rows_Inr:
  "select_rows cond rs = Inr sel \<Longrightarrow> sel = filter (\<lambda>r. cond r = Inr True) rs"
  by (induction rs arbitrary: sel) (auto split: sum.splits if_splits)

lemma select_rows_Inl:
  "select_rows cond rs = Inl e \<Longrightarrow> \<exists>r\<in>set rs. cond r = Inl e"
  by (induction rs) (auto split: sum.splits)

lemma analyze_data_Inr:
  assumes "analyze_data data filename = Inr res"
  shows "\<exists>n_trucks n_elm n_elm_scooters bicycle_data hanley peak avg ep tp.
     trucks data = Inr n_trucks \<and>
     elm_avenue_vehicles data = Inr n_elm \<and>
     elm_scooters data = Inr n_elm_scooters \<and>
     percentage n_elm_scooters n_elm = Inr ep \<and>
     select_rows is_bicycle data = Inr bicycle_data \<and>
     avg_bicycles_per_hour (bicycle_count_per_hour bicycle_data []) = Inr avg \<and>
     hanley_peak_hour data [] = Inr hanley \<and>
     peak_hour_count hanley = Inr peak \<and>
     percentage n_trucks (length data) = Inr tp \<and>
     Total_Vehicles res = length data \<and>
     Total_Trucks res = n_trucks \<and>
     Truck_Percentage res = tp \<and>
     Scooter_Percentage_Elm_Avenue res = ep \<and>
     Avg_Bicycles_per_Hour res = avg \<and>
     Peak_Hours_Hanley_Highway_Westway res = peak_hours hanley peak"
  using assms unfolding analyze_data_def Let_def bind_e_Inr_iff
  by force

subsection \<open>Counting per hour\<close>

lemma map_of_incr:
  "map_of (incr k d) = (map_of d)(k \<mapsto> (case map_of d k of None \<Rightarrow> 1 | Some c \<Rightarrow> c + 1))"
  by (induction d) (auto simp: fun_eq_iff)

lemma keys_incr: "fst ` set (incr k d) = insert k (fst ` set d)"
  by (induction d) (force split: if_splits)+

lemma distinct_incr: "distinct (map fst d) \<Longrightarrow> distinct (map fst (incr k d))"
  by (induction d) (auto simp: keys_incr)

lemma sum_incr: "sum_list (map snd (incr k d)) = Suc (sum_list (map snd d))"
  by (induction d) auto

lemma distinct_fold_incr: "distinct (map fst d) \<Longrightarrow> distinct (map fst (fold incr ks d))"
  by (induction ks arbitrary: d) (auto simp: distinct_incr)

lemma keys_fold_incr: "fst ` set (fold incr ks d) = set ks \<union> fst ` set d"
  by (induction ks arbitrary: d) (simp_all add: keys_incr)

lemma sum_fold_incr: "sum_list (map snd (fold incr ks d)) = sum_list (map snd d) + length ks"
  by (induction ks arbitrary: d) (auto simp: sum_incr)

lemma map_of_fold_incr:
  "map_of (fold incr ks d) h =
     (case map_of d h of
        None \<Rightarrow> if h \<in> set ks then Some (count_list ks h) else None
      | Some c \<Rightarrow> Some (c + count_list ks h))"
  by (induction ks arbitrary: d) (auto simp: map_of_incr split: option.splits)

lemma in_fold_incr_iff:
  "(h, c) \<in> set (fold incr ks []) \<longleftrightarrow> h \<in> set ks \<and> c = count_list ks h"
proof -
  have "distinct (map fst (fold incr ks []))"
    by (simp add: distinct_fold_incr)
  then have "(h, c) \<in> set (fold incr ks []) \<longleftrightarrow> map_of (fold incr ks []) h = Some c"
    by simp
  then show ?thesis
    by (auto simp: map_of_fold_incr)
qed

lemma length_fold_incr: "length (fold incr ks []) = card (set ks)"
proof -
  have "length (fold incr ks []) = length (map fst (fold incr ks []))"
    by simp
  also have "\<dots> = card (set (map fst (fold incr ks [])))"
    using distinct_card [of "map fst (fold incr ks [])"] by (simp add: distinct_fold_incr)
  also have "\<dots> = card (set ks)"
    using keys_fold_incr [of ks "[]"] by simp
  finally show ?thesis .
qed

lemma fold_incr_Nil_iff: "fold incr ks [] = [] \<longleftrightarrow> ks = []"
  using length_fold_incr [of ks] by (metis card_0_eq List.finite_set length_0_conv set_empty)

lemma count_list_map_filter:
  "count_list (List.map_filter f xs) h = length (filter (\<lambda>x. f x = Some h) xs)"
  by (induction xs) (auto simp: List.map_filter_simps split: option.splits)

lemma bicycle_count_per_hour_fold:
  "bicycle_count_per_hour rs d = fold incr (List.map_filter hour_bucket rs) d"
  by (induction rs arbitrary: d)
     (auto simp: List.map_filter_simps hour_bucket_def split: pyval.splits)

lemma hanley_peak_hour_fold:
  "hanley_peak_hour rs d = Inr d' \<Longrightarrow>
     d' = fold incr (List.map_filter hour_bucket
            (filter (field_is ''JunctionName'' ''Hanley Highway/Westway'') rs)) d"
  by (induction rs arbitrary: d)
     (auto simp: List.map_filter_simps hour_bucket_def field_is_def getitem_def
           split: pyval.splits sum.splits option.splits if_splits)

lemma py_max_Max: "xs \<noteq> [] \<Longrightarrow> py_max xs = Inr (Max (set xs))"
  using Max.set_eq_fold [of "hd xs" "tl xs"] by (cases xs) simp_all

lemma percentage_eq: "percentage m t = Inr (spec_percentage m t)"
  by (simp add: percentage_def spec_percentage_def int_truediv_def bind_e_def)

lemma is_truck_True: "is_truck r = Inr True \<longleftrightarrow> field_is ''VehicleType'' ''Truck'' r"
  by (simp add: is_truck_def getitem_def bind_e_def field_is_def split: option.splits)

lemma is_bicycle_True: "is_bicycle r = Inr True \<longleftrightarrow> field_is ''VehicleType'' ''Bicycle'' r"
  by (simp add: is_bicycle_def getitem_def bind_e_def field_is_def split: option.splits)

lemma is_at_True: "is_at j r = Inr True \<longleftrightarrow> field_is ''JunctionName'' j r"
  by (simp add: is_at_def getitem_def bind_e_def field_is_def split: option.splits)

lemma is_elm_scooter_True:
  "is_elm_scooter r = Inr True \<longleftrightarrow>
     field_is ''JunctionName'' ''Elm Avenue/Rabbit Road'' r \<and> field_is ''VehicleType'' ''Scooter'' r"
  by (auto simp: is_elm_scooter_def getitem_def bind_e_def field_is_def split: option.splits)

lemma peak_hours_set: "h \<in> set (peak_hours d peak) \<longleftrightarrow> (h, peak) \<in> set d"
  by (force simp: peak_hours_def)

lemma peak_hours_fold_incr:
  assumes "peak_hour_count (fold incr ks []) = Inr peak"
  shows "h \<in> set (peak_hours (fold incr ks []) peak) \<longleftrightarrow>
           h \<in> set ks \<and> (\<forall>h'. count_list ks h' \<le> count_list ks h)"
proof (cases "ks = []")
  case True
  then show ?thesis by (simp add: peak_hours_def)
next
  case False
  let ?d = "fold incr ks []"
  have d: "?d \<noteq> []"
    using False by (simp add: fold_incr_Nil_iff)
  have img: "set (map snd ?d) = count_list ks ` set ks"
  proof (rule set_eqI)
    fix c
    have "c \<in> set (map snd ?d) \<longleftrightarrow> (\<exists>k. (k, c) \<in> set ?d)"
      by force
    then show "c \<in> set (map snd ?d) \<longleftrightarrow> c \<in> count_list ks ` set ks"
      by (auto simp: in_fold_incr_iff)
  qed
  have "peak = Max (set (map snd ?d))"
    using assms d by (simp add: peak_hour_count_def py_max_Max)
  then have peak: "peak = Max (count_list ks ` set ks)"
    by (simp only: img)
  have ne: "count_list ks ` set ks \<noteq> {}"
    using False by simp
  have "h \<in> set (peak_hours ?d peak) \<longleftrightarrow> h \<in> set ks \<and> Max (count_list ks ` set ks) = count_list ks h"
    by (auto simp: peak_hours_set in_fold_incr_iff peak)
  also have "\<dots> \<longleftrightarrow> h \<in> set ks \<and> (\<forall>h'\<in>set ks. count_list ks h' \<le> count_list ks h)"
    using ne by (auto simp: Max_eq_iff)
  also have "\<dots> \<longleftrightarrow> h \<in> set ks \<and> (\<forall>h'. count_list ks h' \<le> count_list ks h)"
  proof -
    have "count_list ks h' \<le> count_list ks h"
      if "\<forall>h'\<in>set ks. count_list ks h' \<le> count_list ks h" for h'
      using that by (cases "h' \<in> set ks") simp_all
    then show ?thesis by blast
  qed
  finally show ?thesis .
qed

lemma distinct_peak_hours: "distinct (map fst d) \<Longrightarrow> distinct (peak_hours d peak)"
  by (simp add: peak_hours_def distinct_map_filter)

lemma count_list_buckets:
  "count_list (List.map_filter hour_bucket (filter P data)) h = bucket_count P data h"
  by (simp add: count_list_map_filter bucket_count_def conj_commute)

subsection \<open>Which exceptions the analysis can raise\<close>

lemma getitem_Inl: "getitem r k = Inl e \<Longrightarrow> e = KeyError"
  by (simp add: getitem_def split: option.splits)

lemma int_of_Inl: "int_of v = Inl e \<Longrightarrow> e = TypeError \<or> e = ValueError"
  by (cases v) (auto split: option.splits)

lemma cond_errors:
  "is_truck r = Inl e \<Longrightarrow> e = KeyError"
  "is_electric r = Inl e \<Longrightarrow> e = KeyError"
  "is_two_wheeled r = Inl e \<Longrightarrow> e = KeyError"
  "is_elm_bus_north r = Inl e \<Longrightarrow> e = KeyError"
  "is_no_turn r = Inl e \<Longrightarrow> e = KeyError"
  "is_at j r = Inl e \<Longrightarrow> e = KeyError"
  "is_elm_scooter r = Inl e \<Longrightarrow> e = KeyError"
  "is_bicycle r = Inl e \<Longrightarrow> e = KeyError"
  by (auto simp: is_truck_def is_electric_def is_two_wheeled_def is_elm_bus_north_def
        is_no_turn_def is_at_def is_elm_scooter_def is_bicycle_def bind_e_Inl_iff
        dest: getitem_Inl split: if_splits)

lemma is_over_speed_Inl:
  "is_over_speed r = Inl e \<Longrightarrow> e = KeyError \<or> e = TypeError \<or> e = ValueError"
  by (auto simp: is_over_speed_def int_field_def bind_e_Inl_iff dest: getitem_Inl int_of_Inl)

lemma hanley_peak_hour_Inl: "hanley_peak_hour rs d = Inl e \<Longrightarrow> e = KeyError"
  by (induction rs arbitrary: d)
     (auto dest: getitem_Inl split: sum.splits pyval.splits if_splits)

lemma avg_bicycles_per_hour_Inr:
  "avg_bicycles_per_hour d =
     Inr (if d = [] then 0
          else py_round (binary64 (of_nat (sum_list (map snd d)) / of_nat (length d))))"
  by (simp add: avg_bicycles_per_hour_def int_truediv_def bind_e_def)

lemma peak_hour_count_Inr:
  "peak_hour_count d = Inr (if d = [] then 0 else Max (set (map snd d)))"
  by (simp add: peak_hour_count_def py_max_Max)

lemma component_errors:
  "trucks data = Inl e \<Longrightarrow> e = KeyError"
  "electric_vehicles data = Inl e \<Longrightarrow> e = KeyError"
  "two_wheeled_vehicles data = Inl e \<Longrightarrow> e = KeyError"
  "elm_buses_north data = Inl e \<Longrightarrow> e = KeyError"
  "no_turns data = Inl e \<Longrightarrow> e = KeyError"
  "over_speed data = Inl e \<Longrightarrow> e = KeyError \<or> e = TypeError \<or> e = ValueError"
  "elm_avenue_vehicles data = Inl e \<Longrightarrow> e = KeyError"
  "hanley_highway_vehicles data = Inl e \<Longrightarrow> e = KeyError"
  "elm_scooters data = Inl e \<Longrightarrow> e = KeyError"
  "select_rows is_bicycle data = Inl e \<Longrightarrow> e = KeyError"
  unfolding trucks_def electric_vehicles_def two_wheeled_vehicles_def elm_buses_north_def
    no_turns_def over_speed_def elm_avenue_vehicles_def hanley_highway_vehicles_def
    elm_scooters_def
  by (blast dest: count_rows_Inl select_rows_Inl cond_errors is_over_speed_Inl)+

lemma analyze_data_Inl:
  assumes "analyze_data data filename = Inl e"
  shows "e = KeyError \<or> e = TypeError \<or> e = ValueError"
  using assms unfolding analyze_data_def Let_def bind_e_Inl_iff
  by (auto simp: percentage_eq avg_bicycles_per_hour_Inr peak_hour_count_Inr
        dest: component_errors hanley_peak_hour_Inl)

subsection \<open>The over-speeding count and the handlers of \<^verbatim>\<open>main\<close>\<close>

lemma has_columns_conds:
  assumes "has_columns r"
  shows "\<exists>b. is_truck r = Inr b" "\<exists>b. is_electric r = Inr b" "\<exists>b. is_two_wheeled r = Inr b"
    "\<exists>b. is_elm_bus_north r = Inr b" "\<exists>b. is_no_turn r = Inr b"
  using assms
  by (auto simp: has_columns_def is_truck_def is_electric_def is_two_wheeled_def
        is_elm_bus_north_def is_no_turn_def getitem_def bind_e_def
        split: option.splits pyval.splits)

lemma has_columns_int_field:
  assumes "has_columns r" "k = ''VehicleSpeed'' \<or> k = ''JunctionSpeedLimit''"
  shows "int_field r k = Inl e \<Longrightarrow> e = ValueError"
  using assms
  by (auto simp: has_columns_def int_field_def getitem_def bind_e_def
        split: option.splits pyval.splits)

lemma is_over_speed_Inl_iff:
  "(\<exists>e. is_over_speed r = Inl e) \<longleftrightarrow>
     (\<exists>e. int_field r ''VehicleSpeed'' = Inl e \<or> int_field r ''JunctionSpeedLimit'' = Inl e)"
  by (cases "int_field r ''VehicleSpeed''"; cases "int_field r ''JunctionSpeedLimit''")
     (auto simp: is_over_speed_def bind_e_def)

lemma is_over_speed_True_iff:
  "is_over_speed r = Inr True \<longleftrightarrow>
     (\<exists>speed limit. int_field r ''VehicleSpeed'' = Inr speed \<and>
        int_field r ''JunctionSpeedLimit'' = Inr limit \<and> limit < speed)"
  by (cases "int_field r ''VehicleSpeed''"; cases "int_field r ''JunctionSpeedLimit''")
     (auto simp: is_over_speed_def bind_e_def)

lemma is_over_speed_columns:
  assumes "has_columns r" "is_over_speed r = Inl e"
  shows "e = ValueError"
  using assms has_columns_int_field [of r "''VehicleSpeed''" e]
    has_columns_int_field [of r "''JunctionSpeedLimit''" e]
  by (auto simp: is_over_speed_def bind_e_Inl_iff)

lemma main_pass_error:
  assumes "fs filename = Some data" "analyze_data data filename = Inl e"
  shows "main_pass fs filename = An_error_occurred e"
  using assms analyze_data_Inl [OF assms(2)]
  by (auto simp: main_pass_def process_csv_data_def bind_e_def)

subsection \<open>The grouping loop\<close>

lemma volume_add_vehicle:
  "volume (add_vehicle hour junction t) h j =
     volume t h j + (if h = hour \<and> j = junction then 1 else 0)"
  by (auto simp: volume_def add_vehicle_def Let_def split: option.splits)

lemma group_rows_Completed:
  "group_rows d rs t = (Completed, t') \<Longrightarrow>
     volume t' h j = volume t h j + length (filter (counted_in d h j) rs)"
proof (induction rs arbitrary: t)
  case Nil
  then show ?case by simp
next
  case (Cons r rs)
  then show ?case
    by (auto simp: getitem_def counted_in_def volume_add_vehicle
          split: option.splits sum.splits pyval.splits if_splits)
qed

lemma group_rows_Completed_iff:
  "fst (group_rows d rs t) = Completed \<longleftrightarrow> (\<forall>r\<in>set rs. passes d r)"
proof (induction rs arbitrary: t)
  case Nil
  then show ?case by simp
next
  case (Cons r rs)
  then show ?case
    by (auto simp: getitem_def passes_def split: option.splits sum.splits pyval.splits)
qed

lemma group_rows_append:
  "group_rows d (pre @ rest) t =
     (case group_rows d pre t of
        (Completed, t') \<Rightarrow> group_rows d rest t'
      | (outcome, t') \<Rightarrow> (outcome, t'))"
proof (induction pre arbitrary: t)
  case Nil
  then show ?case by simp
next
  case (Cons r pre)
  then show ?case
    by (auto simp: getitem_def split: option.splits sum.splits pyval.splits)
qed

lemma group_rows_not_early: "fst (group_rows d rs t) \<noteq> Returned_early"
  by (induction rs arbitrary: t)
     (auto simp: getitem_def split: option.splits sum.splits pyval.splits)

lemma group_rows_Raised:
  "fst (group_rows d rs t) = Raised e \<Longrightarrow>
     \<exists>r\<in>set rs. r ''Date'' = None \<or> r ''timeOfDay'' = Some PNone"
proof (induction rs arbitrary: t)
  case Nil
  then show ?case by simp
next
  case (Cons r rs)
  then show ?case
    by (auto simp: getitem_def extract_hour_def
          split: option.splits sum.splits pyval.splits if_splits)
qed

lemma process_data_group:
  assumes "current_data s = Some rows" "rows \<noteq> []" "truthy (date s)"
  shows "process_data s =
           (fst (group_rows (date s) rows Map.empty),
            s\<lparr> traffic_summary := snd (group_rows (date s) rows Map.empty) \<rparr>)"
  using assms by (cases rows) (simp_all add: process_data_def split: prod.splits)

lemma process_data_guard:
  assumes "current_data s = None \<or> current_data s = Some [] \<or> \<not> truthy (date s)"
  shows "process_data s = (Returned_early, s)"
  using assms by (auto simp: process_data_def split: option.splits list.splits)

lemma process_data_Completed:
  assumes "process_data s = (Completed, s')"
  shows "\<exists>rows. current_data s = Some rows \<and> rows \<noteq> [] \<and> truthy (date s) \<and>
           group_rows (date s) rows Map.empty = (Completed, traffic_summary s') \<and>
           s' = s\<lparr> traffic_summary := traffic_summary s' \<rparr>"
  using assms
  by (auto simp: process_data_def split: option.splits list.splits if_splits prod.splits)

lemma clear_previous_data_const:
  "clear_previous_data s = \<lparr> current_data = None, date = PNone, traffic_summary = Map.empty \<rparr>"
  by (cases s) (simp add: clear_previous_data_def)

section \<open>The claims\<close>

subsection \<open>C1: peak hours\<close>

text \<open>
  C1. Peak-hour detection for the junction Hanley Highway/Westway returns every hour
  bucket that reaches the maximum count. When the analysis of a dataset returns a
  result, an hour \<open>h\<close> is in the returned list of peak hours if and only if it is a
  bucket (some row of that junction falls into it) and no bucket has a larger count;
  no hour is listed twice; the list is empty when there are no buckets; and the counts
  \<^verbatim>\<open>{"08": 5, "09": 5, "10": 3}\<close> give exactly the hours 08 and 09.
\<close>

theorem peak_hours_all_maxima:
  assumes "analyze_data data filename = Inr res"
  shows "(h \<in> set (Peak_Hours_Hanley_Highway_Westway res) \<longleftrightarrow>
            0 < bucket_count (field_is ''JunctionName'' ''Hanley Highway/Westway'') data h \<and>
            (\<forall>h'. bucket_count (field_is ''JunctionName'' ''Hanley Highway/Westway'') data h'
                 \<le> bucket_count (field_is ''JunctionName'' ''Hanley Highway/Westway'') data h)) \<and>
         distinct (Peak_Hours_Hanley_Highway_Westway res) \<and>
         ((\<forall>h'. bucket_count (field_is ''JunctionName'' ''Hanley Highway/Westway'') data h' = 0) \<longrightarrow>
            Peak_Hours_Hanley_Highway_Westway res = []) \<and>
         bind_e (peak_hour_count example_counts) (\<lambda>peak. Inr (peak_hours example_counts peak))
           = Inr [''08'', ''09'']"
proof -
  let ?P = "field_is ''JunctionName'' ''Hanley Highway/Westway''"
  let ?ks = "List.map_filter hour_bucket (filter ?P data)"
  from analyze_data_Inr [OF assms] obtain hanley peak where
    h: "hanley_peak_hour data [] = Inr hanley" and
    p: "peak_hour_count hanley = Inr peak" and
    r: "Peak_Hours_Hanley_Highway_Westway res = peak_hours hanley peak"
    by blast
  have hanley: "hanley = fold incr ?ks []"
    using hanley_peak_hour_fold [OF h] .
  have cnt: "count_list ?ks k = bucket_count ?P data k" for k
    by (rule count_list_buckets)
  have mem: "k \<in> set ?ks \<longleftrightarrow> 0 < bucket_count ?P data k" for k
    using count_list_0_iff [of ?ks k] cnt [of k] by auto
  have iff: "h \<in> set (Peak_Hours_Hanley_Highway_Westway res) \<longleftrightarrow>
               0 < bucket_count ?P data h \<and> (\<forall>h'. bucket_count ?P data h' \<le> bucket_count ?P data h)"
    using peak_hours_fold_incr [of ?ks peak h] p
    by (simp add: r hanley cnt mem)
  have dist: "distinct (Peak_Hours_Hanley_Highway_Westway res)"
    by (simp add: r hanley distinct_peak_hours distinct_fold_incr)
  have empty: "Peak_Hours_Hanley_Highway_Westway res = []"
    if "\<forall>h'. bucket_count ?P data h' = 0"
  proof -
    have "k \<notin> set ?ks" for k
      using that mem [of k] by simp
    then have "?ks = []"
      by (cases ?ks) auto
    then show ?thesis
      by (simp add: r hanley peak_hours_def)
  qed
  have ex: "bind_e (peak_hour_count example_counts) (\<lambda>peak. Inr (peak_hours example_counts peak))
              = Inr [''08'', ''09'']"
    by (simp add: example_counts_def peak_hour_count_def peak_hours_def bind_e_def)
  from iff dist empty ex show ?thesis by blast
qed

theorem peak_hours_all_maxima_witness:
  "analyze_data example_data ''traffic_data21062024.csv'' = Inr example_results \<and>
   ''08'' \<in> set (Peak_Hours_Hanley_Highway_Westway example_results) \<and>
   ''09'' \<in> set (Peak_Hours_Hanley_Highway_Westway example_results) \<and>
   ''10'' \<notin> set (Peak_Hours_Hanley_Highway_Westway example_results) \<and>
   bucket_count (field_is ''JunctionName'' ''Hanley Highway/Westway'') example_data ''09'' = 2 \<and>
   (\<forall>h'. bucket_count (field_is ''JunctionName'' ''Hanley Highway/Westway'') example_data h'
        \<le> bucket_count (field_is ''JunctionName'' ''Hanley Highway/Westway'') example_data ''08'') \<and>
   analyze_data [] ''traffic_data21062024.csv'' = Inr (empty_results ''traffic_data21062024.csv'') \<and>
   (\<forall>h'. bucket_count (field_is ''JunctionName'' ''Hanley Highway/Westway'') [] h' = 0) \<and>
   Peak_Hours_Hanley_Highway_Westway (empty_results ''traffic_data21062024.csv'') = []"
proof -
  have run: "analyze_data example_data ''traffic_data21062024.csv'' = Inr example_results"
    by code_simp
  have listed: "''08'' \<in> set (Peak_Hours_Hanley_Highway_Westway example_results)"
    "''09'' \<in> set (Peak_Hours_Hanley_Highway_Westway example_results)"
    "''10'' \<notin> set (Peak_Hours_Hanley_Highway_Westway example_results)"
    by (simp_all add: example_results_def)
  have nine: "bucket_count (field_is ''JunctionName'' ''Hanley Highway/Westway'') example_data ''09'' = 2"
    by (simp add: bucket_count_def example_data_def observation_def field_is_def hour_bucket_def
          get_def split_first_def)
  have run0: "analyze_data [] ''traffic_data21062024.csv'' = Inr (empty_results ''traffic_data21062024.csv'')"
    by code_simp
  have none: "\<forall>h'. bucket_count (field_is ''JunctionName'' ''Hanley Highway/Westway'') [] h' = 0"
    by (simp add: bucket_count_def)
  from peak_hours_all_maxima [OF run, of "''08''"] peak_hours_all_maxima [OF run0] listed run nine
    run0 none
  show ?thesis
    by blast
qed

subsection \<open>C2: percentages\<close>

text \<open>
  C2. Every percentage of the aggregator is \<^verbatim>\<open>round(matching / total * 100)\<close>, is
  \<open>0\<close> when the total is \<open>0\<close>, and its computation never raises: the guarded expression
  of the source returns \<open>0\<close> for a zero total and the value of the formula for every
  count \<open>matching\<close> of a part of \<open>whole\<close> rows; the analysis never ends with
  ZeroDivisionError; and in a result the truck percentage is the formula on the number
  of trucks and the number of rows, the scooter percentage the formula on the number of
  scooters at Elm Avenue/Rabbit Road and the number of rows of that junction.
\<close>

theorem percentages_rounded_and_guarded:
  "percentage matching 0 = Inr 0 \<and>
   (matching \<le> whole \<longrightarrow> percentage matching whole = Inr (spec_percentage matching whole)) \<and>
   analyze_data data filename \<noteq> Inl ZeroDivisionError \<and>
   (analyze_data data filename = Inr res \<longrightarrow>
      Truck_Percentage res =
        spec_percentage (length (filter (field_is ''VehicleType'' ''Truck'') data)) (length data) \<and>
      Scooter_Percentage_Elm_Avenue res =
        spec_percentage
          (length (filter (\<lambda>r. field_is ''JunctionName'' ''Elm Avenue/Rabbit Road'' r \<and>
                              field_is ''VehicleType'' ''Scooter'' r) data))
          (length (filter (field_is ''JunctionName'' ''Elm Avenue/Rabbit Road'') data)))"
proof -
  have no_zero: "analyze_data data filename \<noteq> Inl ZeroDivisionError"
    using analyze_data_Inl [of data filename ZeroDivisionError] by auto
  have fields: "Truck_Percentage res =
        spec_percentage (length (filter (field_is ''VehicleType'' ''Truck'') data)) (length data) \<and>
      Scooter_Percentage_Elm_Avenue res =
        spec_percentage
          (length (filter (\<lambda>r. field_is ''JunctionName'' ''Elm Avenue/Rabbit Road'' r \<and>
                              field_is ''VehicleType'' ''Scooter'' r) data))
          (length (filter (field_is ''JunctionName'' ''Elm Avenue/Rabbit Road'') data))"
    if run: "analyze_data data filename = Inr res"
  proof -
    from analyze_data_Inr [OF run] obtain n_trucks n_elm n_elm_scooters ep tp where
      t: "trucks data = Inr n_trucks" and
      e: "elm_avenue_vehicles data = Inr n_elm" and
      s: "elm_scooters data = Inr n_elm_scooters" and
      ep: "percentage n_elm_scooters n_elm = Inr ep" and
      tp: "percentage n_trucks (length data) = Inr tp" and
      r: "Truck_Percentage res = tp" "Scooter_Percentage_Elm_Avenue res = ep"
      by blast
    have "n_trucks = length (filter (field_is ''VehicleType'' ''Truck'') data)"
      using count_rows_Inr_eq [OF t [unfolded trucks_def]] by (simp add: is_truck_True)
    moreover have "n_elm = length (filter (field_is ''JunctionName'' ''Elm Avenue/Rabbit Road'') data)"
      using count_rows_Inr_eq [OF e [unfolded elm_avenue_vehicles_def]] by (simp add: is_at_True)
    moreover have "n_elm_scooters =
        length (filter (\<lambda>r. field_is ''JunctionName'' ''Elm Avenue/Rabbit Road'' r \<and>
                             field_is ''VehicleType'' ''Scooter'' r) data)"
      using count_rows_Inr_eq [OF s [unfolded elm_scooters_def]] by (simp add: is_elm_scooter_True)
    ultimately show ?thesis
      using ep tp r by (simp add: percentage_eq)
  qed
  have zero: "percentage matching 0 = Inr 0"
    by (simp add: percentage_def)
  show ?thesis
    using zero no_zero fields by (simp add: percentage_eq)
qed

theorem percentages_rounded_and_guarded_witness:
  "analyze_data example_data ''traffic_data21062024.csv'' = Inr example_results \<and>
   length (filter (field_is ''VehicleType'' ''Truck'') example_data) = 2 \<and>
   length example_data = 8 \<and>
   Truck_Percentage example_results = spec_percentage 2 8 \<and>
   Truck_Percentage example_results = 25 \<and>
   (23::nat) \<le> 40 \<and> percentage 23 40 = Inr 57"
proof -
  have run: "analyze_data example_data ''traffic_data21062024.csv'' = Inr example_results"
    by code_simp
  have n: "length (filter (field_is ''VehicleType'' ''Truck'') example_data) = 2"
    "length example_data = 8"
    by (simp_all add: example_data_def observation_def field_is_def)
  have t: "Truck_Percentage example_results = 25"
    by (simp add: example_results_def)
  have p: "spec_percentage 23 40 = 57"
    by code_simp
  from percentages_rounded_and_guarded
         [of 23 40 example_data "''traffic_data21062024.csv''" example_results]
  show ?thesis
    using run n t p by simp
qed

subsection \<open>C3: speeds that are not numbers\<close>

text \<open>
  C3, as amended. The over-speeding count converts both fields of every row with
  \<^verbatim>\<open>int\<close>. When both fields of every row are numeric it returns the number of rows
  whose speed is strictly greater than the limit. When some row has a field that is
  not numeric (absent, \<^verbatim>\<open>None\<close> or not an integer literal) the count raises instead
  of counting the row as zero, and so does the analysis; for a dataset in which every
  row has the columns of the aggregator as strings the exception is ValueError. The
  loop of \<^verbatim>\<open>main\<close> reports every exception of the analysis through its handler
  \<^verbatim>\<open>except Exception\<close>, the message "An error occurred".
\<close>

theorem over_speed_raises_or_counts:
  "((\<forall>r\<in>set data. \<exists>speed limit. int_field r ''VehicleSpeed'' = Inr speed \<and>
                                 int_field r ''JunctionSpeedLimit'' = Inr limit) \<longrightarrow>
      over_speed data =
        Inr (length (filter (\<lambda>r. \<exists>speed limit. int_field r ''VehicleSpeed'' = Inr speed \<and>
                       int_field r ''JunctionSpeedLimit'' = Inr limit \<and> limit < speed) data))) \<and>
   ((\<exists>r\<in>set data. \<exists>e. int_field r ''VehicleSpeed'' = Inl e \<or>
                       int_field r ''JunctionSpeedLimit'' = Inl e) \<longrightarrow>
      (\<exists>e. over_speed data = Inl e) \<and> (\<exists>e. analyze_data data filename = Inl e)) \<and>
   ((\<forall>r\<in>set data. has_columns r) \<and>
    (\<exists>r\<in>set data. int_field r ''VehicleSpeed'' = Inl ValueError \<or>
                    int_field r ''JunctionSpeedLimit'' = Inl ValueError) \<longrightarrow>
      over_speed data = Inl ValueError \<and> analyze_data data filename = Inl ValueError) \<and>
   (fs filename = Some data \<and> analyze_data data filename = Inl e \<longrightarrow>
      main_pass fs filename = An_error_occurred e)"
proof -
  have numeric: "over_speed data =
        Inr (length (filter (\<lambda>r. \<exists>speed limit. int_field r ''VehicleSpeed'' = Inr speed \<and>
                       int_field r ''JunctionSpeedLimit'' = Inr limit \<and> limit < speed) data))"
    if "\<forall>r\<in>set data. \<exists>speed limit. int_field r ''VehicleSpeed'' = Inr speed \<and>
                                 int_field r ''JunctionSpeedLimit'' = Inr limit"
  proof -
    have "\<forall>r\<in>set data. \<exists>b. is_over_speed r = Inr b"
      using that by (auto simp: is_over_speed_def bind_e_def)
    from count_rows_total [OF this] show ?thesis
      by (simp add: over_speed_def is_over_speed_True_iff)
  qed
  have fails: "\<exists>e. over_speed data = Inl e"
    if "\<exists>r\<in>set data. \<exists>e. int_field r ''VehicleSpeed'' = Inl e \<or>
                          int_field r ''JunctionSpeedLimit'' = Inl e"
  proof -
    have "\<exists>r\<in>set data. \<exists>e. is_over_speed r = Inl e"
      using that is_over_speed_Inl_iff by blast
    then show ?thesis
      unfolding over_speed_def by (rule count_rows_fails)
  qed
  have analysis_fails: "\<exists>e. analyze_data data filename = Inl e" if "over_speed data = Inl e" for e
  proof (cases "analyze_data data filename")
    case (Inl e')
    then show ?thesis by blast
  next
    case (Inr res)
    then have "\<exists>n. over_speed data = Inr n"
      unfolding analyze_data_def Let_def bind_e_Inr_iff by blast
    with that show ?thesis by simp
  qed
  have value_error: "over_speed data = Inl ValueError \<and> analyze_data data filename = Inl ValueError"
    if cols: "\<forall>r\<in>set data. has_columns r"
      and bad: "\<exists>r\<in>set data. int_field r ''VehicleSpeed'' = Inl ValueError \<or>
                  int_field r ''JunctionSpeedLimit'' = Inl ValueError"
  proof -
    from bad fails obtain e where e: "over_speed data = Inl e"
      by blast
    then obtain r where "r \<in> set data" "is_over_speed r = Inl e"
      unfolding over_speed_def by (blast dest: count_rows_Inl)
    then have "e = ValueError"
      using cols is_over_speed_columns by blast
    with e have os: "over_speed data = Inl ValueError"
      by simp
    have "\<exists>n. trucks data = Inr n" "\<exists>n. electric_vehicles data = Inr n"
      "\<exists>n. two_wheeled_vehicles data = Inr n" "\<exists>n. elm_buses_north data = Inr n"
      "\<exists>n. no_turns data = Inr n"
      unfolding trucks_def electric_vehicles_def two_wheeled_vehicles_def elm_buses_north_def
        no_turns_def
      using cols by (blast intro: count_rows_total has_columns_conds)+
    then have "analyze_data data filename = Inl ValueError"
      using os by (auto simp: analyze_data_def bind_e_def)
    with os show ?thesis
      by simp
  qed
  from numeric fails analysis_fails value_error main_pass_error [of fs filename data e]
  show ?thesis
    by blast
qed

theorem over_speed_raises_or_counts_witness:
  "list_all has_columns bad_speed_data \<and>
   int_field (hd bad_speed_data) ''VehicleSpeed'' = Inl ValueError \<and>
   int_field (hd bad_speed_data) ''JunctionSpeedLimit'' = Inr 30 \<and>
   over_speed bad_speed_data = Inl ValueError \<and>
   analyze_data bad_speed_data ''traffic_data21062024.csv'' = Inl ValueError \<and>
   main_pass [''traffic_data21062024.csv'' \<mapsto> bad_speed_data] ''traffic_data21062024.csv''
     = An_error_occurred ValueError \<and>
   list_all (\<lambda>r. \<exists>speed limit. int_field r ''VehicleSpeed'' = Inr speed \<and>
                                 int_field r ''JunctionSpeedLimit'' = Inr limit) example_data \<and>
   over_speed example_data = Inr 3 \<and>
   length (filter (\<lambda>r. \<exists>speed limit. int_field r ''VehicleSpeed'' = Inr speed \<and>
              int_field r ''JunctionSpeedLimit'' = Inr limit \<and> limit < speed) example_data) = 3"
proof -
  have cols: "\<forall>r\<in>set bad_speed_data. has_columns r"
    by (simp add: bad_speed_data_def observation_def has_columns_def)
  have abc: "int_field (hd bad_speed_data) ''VehicleSpeed'' = Inl ValueError"
    by code_simp
  have thirty: "int_field (hd bad_speed_data) ''JunctionSpeedLimit'' = Inr 30"
    by code_simp
  have bad: "\<exists>r\<in>set bad_speed_data. int_field r ''VehicleSpeed'' = Inl ValueError \<or>
                  int_field r ''JunctionSpeedLimit'' = Inl ValueError"
    using abc by (simp add: bad_speed_data_def)
  have in_fs: "[''traffic_data21062024.csv'' \<mapsto> bad_speed_data] ''traffic_data21062024.csv''
                = Some bad_speed_data"
    by simp
  have numeric: "\<forall>r\<in>set example_data. \<exists>speed limit. int_field r ''VehicleSpeed'' = Inr speed \<and>
                                 int_field r ''JunctionSpeedLimit'' = Inr limit"
    by (simp add: example_data_def observation_def int_field_def getitem_def bind_e_def
          py_int_def strip_def is_space_def digits_def is_digit_def digit_val_def)
  have count3: "over_speed example_data = Inr 3"
    by code_simp
  from over_speed_raises_or_counts
         [of bad_speed_data "''traffic_data21062024.csv''"
             "[''traffic_data21062024.csv'' \<mapsto> bad_speed_data]" ValueError]
       cols bad in_fs
  have raised: "over_speed bad_speed_data = Inl ValueError \<and>
        analyze_data bad_speed_data ''traffic_data21062024.csv'' = Inl ValueError \<and>
        main_pass [''traffic_data21062024.csv'' \<mapsto> bad_speed_data] ''traffic_data21062024.csv''
          = An_error_occurred ValueError"
    by blast
  from over_speed_raises_or_counts [of example_data] numeric count3
  have counted: "length (filter (\<lambda>r. \<exists>speed limit. int_field r ''VehicleSpeed'' = Inr speed \<and>
              int_field r ''JunctionSpeedLimit'' = Inr limit \<and> limit < speed) example_data) = 3"
    by simp
  from raised counted cols abc thirty numeric count3 show ?thesis
    by (simp add: list_all_iff)
qed

text \<open>
  The claim as stated fails where it says that the error is surfaced distinctly and
  not merged into a generic catch-all: for the scenario of the specification
  (\<^verbatim>\<open>VehicleSpeed="abc"\<close>, \<^verbatim>\<open>JunctionSpeedLimit="30"\<close>) the ValueError reaches the
  handler \<^verbatim>\<open>except Exception\<close> of \<^verbatim>\<open>main\<close>, the same one that reports the KeyError of
  a file with a missing column.
\<close>

theorem parse_error_in_generic_handler:
  "main_pass [''traffic_data21062024.csv'' \<mapsto> bad_speed_data] ''traffic_data21062024.csv''
     = An_error_occurred ValueError \<and>
   main_pass [''traffic_data21062024.csv'' \<mapsto> missing_column_data] ''traffic_data21062024.csv''
     = An_error_occurred KeyError"
  by code_simp

subsection \<open>C4: rows that stop the grouping\<close>

text \<open>
  C4, as amended. Let the processor hold a dataset and a date that is not empty. If
  some row of that date has no time of day (the column is absent, or the field is
  \<^verbatim>\<open>None\<close> or empty) or a junction name that is \<^verbatim>\<open>None\<close> or empty, then
  \<^verbatim>\<open>process_data\<close> does not run through: it ends with the message "Invalid Data" or
  "Missing Data", or with an exception; and when every row has a date and no time of
  day is \<^verbatim>\<open>None\<close>, it ends with one of the two messages. Rows of other dates are not
  examined. A row that has no key JunctionName at all does not stop the loop: it is
  counted under the junction \<^verbatim>\<open>Unknown\<close>.
\<close>

theorem grouping_stops_on_missing_field:
  assumes "current_data s = Some rows" and "truthy (date s)"
      and "r \<in> set rows" and "r ''Date'' = Some (date s)"
      and "r ''timeOfDay'' = None \<or> r ''timeOfDay'' = Some PNone \<or>
           r ''timeOfDay'' = Some (PStr []) \<or>
           r ''JunctionName'' = Some PNone \<or> r ''JunctionName'' = Some (PStr [])"
  shows "((\<exists>v. fst (process_data s) = Invalid_Data v) \<or> fst (process_data s) = Missing_Data \<or>
          (\<exists>e. fst (process_data s) = Raised e)) \<and>
         ((\<forall>r'\<in>set rows. r' ''Date'' \<noteq> None \<and> r' ''timeOfDay'' \<noteq> Some PNone) \<longrightarrow>
            (\<exists>v. fst (process_data s) = Invalid_Data v) \<or> fst (process_data s) = Missing_Data) \<and>
         (\<forall>r' d h rs t. r' ''Date'' = Some d \<and> extract_hour r' = Inr h \<and> r' ''JunctionName'' = None \<longrightarrow>
            group_rows d (r' # rs) t = group_rows d rs (add_vehicle h ''Unknown'' t))"
proof -
  let ?g = "group_rows (date s) rows Map.empty"
  have ne: "rows \<noteq> []"
    using assms(3) by auto
  have p: "fst (process_data s) = fst ?g"
    using assms(1,2) ne by (simp add: process_data_group)
  have "\<not> passes (date s) r"
    using assms(4,5)
    by (auto simp: passes_def extract_hour_def get_default_def split_first_def py_int_def strip_def
          split: sum.splits option.splits)
  then have nc: "fst ?g \<noteq> Completed"
    using assms(3) group_rows_Completed_iff [of "date s" rows Map.empty] by blast
  have stop: "(\<exists>v. fst ?g = Invalid_Data v) \<or> fst ?g = Missing_Data \<or> (\<exists>e. fst ?g = Raised e)"
    using nc group_rows_not_early [of "date s" rows Map.empty] by (cases "fst ?g") auto
  have msg: "(\<exists>v. fst ?g = Invalid_Data v) \<or> fst ?g = Missing_Data"
    if "\<forall>r'\<in>set rows. r' ''Date'' \<noteq> None \<and> r' ''timeOfDay'' \<noteq> Some PNone"
    using stop that group_rows_Raised [of "date s" rows Map.empty] by blast
  have unknown: "group_rows d (r' # rs) t = group_rows d rs (add_vehicle h ''Unknown'' t)"
    if "r' ''Date'' = Some d" "extract_hour r' = Inr h" "r' ''JunctionName'' = None"
    for r' d h rs t
    using that by (simp add: getitem_def get_default_def)
  from stop msg unknown show ?thesis
    unfolding p by blast
qed

theorem grouping_stops_on_missing_field_witness:
  "current_data (loaded broken_data Map.empty) = Some broken_data \<and>
   truthy (date (loaded broken_data Map.empty)) \<and>
   broken_data ! 1 \<in> set broken_data \<and>
   (broken_data ! 1) ''Date'' = Some (date (loaded broken_data Map.empty)) \<and>
   (broken_data ! 1) ''timeOfDay'' = Some (PStr []) \<and>
   list_all (\<lambda>r'. r' ''Date'' \<noteq> None \<and> r' ''timeOfDay'' \<noteq> Some PNone) broken_data \<and>
   ((\<exists>v. fst (process_data (loaded broken_data Map.empty)) = Invalid_Data v) \<or>
    fst (process_data (loaded broken_data Map.empty)) = Missing_Data) \<and>
   fst (process_data (loaded broken_data Map.empty)) = Invalid_Data (PStr [])"
proof -
  have h: "current_data (loaded broken_data Map.empty) = Some broken_data"
    "truthy (date (loaded broken_data Map.empty))"
    "broken_data ! 1 \<in> set broken_data"
    "(broken_data ! 1) ''Date'' = Some (date (loaded broken_data Map.empty))"
    "(broken_data ! 1) ''timeOfDay'' = Some (PStr [])"
    by (simp_all add: loaded_def broken_data_def observation_def)
  have all: "\<forall>r'\<in>set broken_data. r' ''Date'' \<noteq> None \<and> r' ''timeOfDay'' \<noteq> Some PNone"
    by (simp add: broken_data_def observation_def)
  have out: "fst (process_data (loaded broken_data Map.empty)) = Invalid_Data (PStr [])"
    by code_simp
  from grouping_stops_on_missing_field [OF h(1) h(2) h(3) h(4)] h(5) all
  have "(\<exists>v. fst (process_data (loaded broken_data Map.empty)) = Invalid_Data v) \<or>
        fst (process_data (loaded broken_data Map.empty)) = Missing_Data"
    by blast
  with h all out show ?thesis
    by (simp add: list_all_iff)
qed

text \<open>
  The claim as stated fails for a file without the column JunctionName: its row is
  counted under the key \<^verbatim>\<open>Unknown\<close>, the default of \<^verbatim>\<open>row.get\<close> in line 131, and
  the grouping runs through. It also fails for a row of another date whose time of day
  is empty: line 121 skips the row before any field of it is examined.
\<close>

theorem absent_junction_counted_as_unknown:
  "process_data (loaded no_junction_data Map.empty) =
     (Completed, loaded no_junction_data [8 \<mapsto> [''Unknown'' \<mapsto> 1]]) \<and>
   (hd no_junction_data) ''JunctionName'' = None \<and>
   fst (process_data (loaded other_date_data Map.empty)) = Completed \<and>
   (other_date_data ! 1) ''timeOfDay'' = Some (PStr [])"
proof -
  have "process_data (loaded no_junction_data Map.empty) =
     (Completed, loaded no_junction_data [8 \<mapsto> [''Unknown'' \<mapsto> 1]])"
    by (simp add: process_data_def loaded_def no_junction_data_def getitem_def extract_hour_def
          split_first_def py_int_def strip_def is_space_def digits_def is_digit_def digit_val_def
          get_default_def add_vehicle_def)
  moreover have "(hd no_junction_data) ''JunctionName'' = None"
    by (simp add: no_junction_data_def)
  moreover have "fst (process_data (loaded other_date_data Map.empty)) = Completed"
    by code_simp
  moreover have "(other_date_data ! 1) ''timeOfDay'' = Some (PStr [])"
    by (simp add: other_date_data_def observation_def)
  ultimately show ?thesis
    by blast
qed

subsection \<open>C5: the cells of the hourly table\<close>

text \<open>
  C5, as amended. The hour bucket of a row is the integer that \<^verbatim>\<open>int\<close> reads from the
  text before the first colon of its time of day, so two rows with the same text before
  the colon have the same bucket (and so have \<^verbatim>\<open>08\<close> and \<^verbatim>\<open>8\<close>). When
  \<^verbatim>\<open>process_data\<close> runs through, which it does exactly when the dataset and the date are
  not empty and every row passes the loop, each cell of the table (an hour and a
  junction) is the number of rows of the date whose bucket is that hour and whose
  junction, \<^verbatim>\<open>Unknown\<close> for a row without the key, is that junction: one is added to
  the cell for each such row, and no other row is counted.
\<close>

theorem hourly_table_counts:
  "(process_data s = (Completed, s') \<longrightarrow>
      (\<exists>rows. current_data s = Some rows \<and> rows \<noteq> [] \<and> truthy (date s) \<and>
         (\<forall>r\<in>set rows. passes (date s) r) \<and>
         (\<forall>h j. volume (traffic_summary s') h j
                 = length (filter (counted_in (date s) h j) rows)))) \<and>
   (current_data s = Some rows \<and> rows \<noteq> [] \<and> truthy (date s) \<and>
      (\<forall>r\<in>set rows. passes (date s) r) \<longrightarrow> fst (process_data s) = Completed) \<and>
   (r1 ''timeOfDay'' = Some (PStr a) \<and> r2 ''timeOfDay'' = Some (PStr b) \<and>
      split_first a = split_first b \<longrightarrow> extract_hour r1 = extract_hour r2)"
proof -
  have counts: "\<exists>rows. current_data s = Some rows \<and> rows \<noteq> [] \<and> truthy (date s) \<and>
         (\<forall>r\<in>set rows. passes (date s) r) \<and>
         (\<forall>h j. volume (traffic_summary s') h j
                 = length (filter (counted_in (date s) h j) rows))"
    if run: "process_data s = (Completed, s')"
  proof -
    from process_data_Completed [OF run] obtain rows where
      rows: "current_data s = Some rows" "rows \<noteq> []" "truthy (date s)" and
      g: "group_rows (date s) rows Map.empty = (Completed, traffic_summary s')"
      by blast
    have "\<forall>r\<in>set rows. passes (date s) r"
      using group_rows_Completed_iff [of "date s" rows Map.empty] g by simp
    moreover have "volume (traffic_summary s') h j
                     = length (filter (counted_in (date s) h j) rows)" for h j
      using group_rows_Completed [OF g, of h j] by (simp add: volume_def)
    ultimately show ?thesis
      using rows by blast
  qed
  have completes: "fst (process_data s) = Completed"
    if "current_data s = Some rows" "rows \<noteq> []" "truthy (date s)"
       "\<forall>r\<in>set rows. passes (date s) r"
    using that by (simp add: process_data_group group_rows_Completed_iff)
  have same: "extract_hour r1 = extract_hour r2"
    if "r1 ''timeOfDay'' = Some (PStr a)" "r2 ''timeOfDay'' = Some (PStr b)"
       "split_first a = split_first b"
    using that by (simp add: extract_hour_def)
  from counts completes same show ?thesis
    by blast
qed

theorem hourly_table_counts_witness:
  "process_data (loaded collision_data stale_summary) =
     (Completed, loaded collision_data [8 \<mapsto> [''Birmingham Road'' \<mapsto> 2]]) \<and>
   list_all (passes (PStr ''21/06/2024'')) collision_data \<and>
   volume [8 \<mapsto> [''Birmingham Road'' \<mapsto> 2]] 8 ''Birmingham Road''
     = length (filter (counted_in (PStr ''21/06/2024'') 8 ''Birmingham Road'') collision_data) \<and>
   length (filter (counted_in (PStr ''21/06/2024'') 8 ''Birmingham Road'') collision_data) = 2 \<and>
   split_first ''08:00:10'' = split_first ''08:10:00'' \<and>
   extract_hour (example_data ! 0) = extract_hour (example_data ! 1)"
proof -
  have run: "process_data (loaded collision_data stale_summary) =
     (Completed, loaded collision_data [8 \<mapsto> [''Birmingham Road'' \<mapsto> 2]])"
    by (simp add: process_data_def loaded_def collision_data_def observation_def getitem_def
          extract_hour_def split_first_def py_int_def strip_def is_space_def digits_def
          is_digit_def digit_val_def get_default_def add_vehicle_def numeral_2_eq_2)
  have s: "date (loaded collision_data stale_summary) = PStr ''21/06/2024''"
    "current_data (loaded collision_data stale_summary) = Some collision_data"
    "traffic_summary (loaded collision_data [8 \<mapsto> [''Birmingham Road'' \<mapsto> 2]])
       = [8 \<mapsto> [''Birmingham Road'' \<mapsto> 2]]"
    by (simp_all add: loaded_def)
  have v: "volume [8 \<mapsto> [''Birmingham Road'' \<mapsto> 2]] 8 ''Birmingham Road'' = 2"
    by (simp add: volume_def)
  have p: "split_first ''08:00:10'' = split_first ''08:10:00''"
    by (simp add: split_first_def)
  have t: "(example_data ! 0) ''timeOfDay'' = Some (PStr ''08:00:10'')"
    "(example_data ! 1) ''timeOfDay'' = Some (PStr ''08:10:00'')"
    by (simp_all add: example_data_def observation_def)
  from hourly_table_counts
         [of "loaded collision_data stale_summary"
             "loaded collision_data [8 \<mapsto> [''Birmingham Road'' \<mapsto> 2]]" collision_data
             "example_data ! 0" "''08:00:10''" "example_data ! 1" "''08:10:00''"]
       run s v p t
  show ?thesis
    by (auto simp: list_all_iff)
qed

text \<open>
  The claim as stated fails in two ways. The bucket is not the text before the colon
  but the integer read from it: the rows \<^verbatim>\<open>08:00:00\<close> and \<^verbatim>\<open>8:30:00\<close> of one
  junction share the cell of hour 8, which holds 2, while one row only has the text
  \<^verbatim>\<open>08\<close>. And the rows of the date are not all processed when one of them stops the
  loop: after the empty time of day in the second of three rows, the cell of hour 9 is
  empty although the third row belongs to it.
\<close>

theorem bucket_is_integer_not_prefix:
  "fst (process_data (loaded collision_data Map.empty)) = Completed \<and>
   volume (traffic_summary (snd (process_data (loaded collision_data Map.empty)))) 8
     ''Birmingham Road'' = 2 \<and>
   length (filter (spec_counted_in (PStr ''21/06/2024'') ''08'' ''Birmingham Road'')
     collision_data) = 1 \<and>
   volume (traffic_summary (snd (process_data (loaded broken_data Map.empty)))) 9
     ''Birmingham Road'' = 0 \<and>
   length (filter (spec_counted_in (PStr ''21/06/2024'') ''09'' ''Birmingham Road'')
     broken_data) = 1"
proof -
  have "fst (process_data (loaded collision_data Map.empty)) = Completed"
    by code_simp
  moreover have "volume (traffic_summary (snd (process_data (loaded collision_data Map.empty)))) 8
     ''Birmingham Road'' = 2"
    by code_simp
  moreover have "length (filter (spec_counted_in (PStr ''21/06/2024'') ''08'' ''Birmingham Road'')
     collision_data) = 1"
    by (simp add: spec_counted_in_def collision_data_def observation_def split_first_def)
  moreover have "volume (traffic_summary (snd (process_data (loaded broken_data Map.empty)))) 9
     ''Birmingham Road'' = 0"
    by code_simp
  moreover have "length (filter (spec_counted_in (PStr ''21/06/2024'') ''09'' ''Birmingham Road'')
     broken_data) = 1"
    by (simp add: spec_counted_in_def broken_data_def observation_def split_first_def)
  ultimately show ?thesis
    by blast
qed

subsection \<open>C6: bicycles per hour\<close>

text \<open>
  C6. The average number of bicycles per hour: the rows of vehicle type Bicycle are
  grouped by hour bucket, and the metric is \<^verbatim>\<open>round\<close> of the sum of the bucket counts
  divided by the number of distinct buckets, \<open>0\<close> when there is no bucket. The sum of the
  bucket counts is the number of bicycle rows that have a time of day.
\<close>

theorem avg_bicycles_per_hour_rounded:
  assumes "analyze_data data filename = Inr res"
  shows "finite {h. 0 < bucket_count (field_is ''VehicleType'' ''Bicycle'') data h} \<and>
         Avg_Bicycles_per_Hour res =
           (if {h. 0 < bucket_count (field_is ''VehicleType'' ''Bicycle'') data h} = {} then 0
            else py_round (binary64
              (of_nat (\<Sum>h \<in> {h. 0 < bucket_count (field_is ''VehicleType'' ''Bicycle'') data h}.
                          bucket_count (field_is ''VehicleType'' ''Bicycle'') data h)
               / of_nat (card {h. 0 < bucket_count (field_is ''VehicleType'' ''Bicycle'') data h})))) \<and>
         (\<Sum>h \<in> {h. 0 < bucket_count (field_is ''VehicleType'' ''Bicycle'') data h}.
             bucket_count (field_is ''VehicleType'' ''Bicycle'') data h)
           = length (filter (\<lambda>r. field_is ''VehicleType'' ''Bicycle'' r \<and> hour_bucket r \<noteq> None) data)"
proof -
  let ?P = "field_is ''VehicleType'' ''Bicycle''"
  let ?ks = "List.map_filter hour_bucket (filter ?P data)"
  let ?B = "{h. 0 < bucket_count ?P data h}"
  from analyze_data_Inr [OF assms] obtain bicycle_data avg where
    sel: "select_rows is_bicycle data = Inr bicycle_data" and
    a: "avg_bicycles_per_hour (bicycle_count_per_hour bicycle_data []) = Inr avg" and
    r: "Avg_Bicycles_per_Hour res = avg"
    by blast
  have bd: "bicycle_data = filter ?P data"
    using select_rows_Inr [OF sel] by (simp add: is_bicycle_True field_is_def [abs_def])
  have d: "bicycle_count_per_hour bicycle_data [] = fold incr ?ks []"
    by (simp add: bd bicycle_count_per_hour_fold)
  have cnt: "count_list ?ks k = bucket_count ?P data k" for k
    by (rule count_list_buckets)
  have mem: "k \<in> set ?ks \<longleftrightarrow> 0 < bucket_count ?P data k" for k
    using count_list_0_iff [of ?ks k] cnt [of k] by auto
  have B: "?B = set ?ks"
    using mem by auto
  have fin: "finite ?B"
    by (simp only: B) simp
  have "(\<Sum>h\<in>set ?ks. count_list ?ks h) = length ?ks"
    by (rule sum_count_set) simp_all
  then have total: "(\<Sum>h\<in>?B. bucket_count ?P data h) = length ?ks"
    by (simp only: B cnt)
  have len: "length ?ks = length (filter (\<lambda>r. ?P r \<and> hour_bucket r \<noteq> None) data)"
    by (induction data) (auto simp: List.map_filter_simps split: option.splits)
  have avg: "avg = (if ?ks = [] then 0
                    else py_round (binary64 (of_nat (length ?ks) / of_nat (card (set ?ks)))))"
    using a unfolding d avg_bicycles_per_hour_Inr
    by (auto simp: fold_incr_Nil_iff sum_fold_incr length_fold_incr split: if_splits)
  have "Avg_Bicycles_per_Hour res =
          (if ?B = {} then 0
           else py_round (binary64 (of_nat (\<Sum>h\<in>?B. bucket_count ?P data h) / of_nat (card ?B))))"
    unfolding r avg total by (simp only: B set_empty)
  with fin total len show ?thesis
    by simp
qed

theorem avg_bicycles_per_hour_rounded_witness:
  "analyze_data example_data ''traffic_data21062024.csv'' = Inr example_results \<and>
   {h. 0 < bucket_count (field_is ''VehicleType'' ''Bicycle'') example_data h} = {''09''} \<and>
   bucket_count (field_is ''VehicleType'' ''Bicycle'') example_data ''09'' = 2 \<and>
   Avg_Bicycles_per_Hour example_results = py_round (binary64 2) \<and>
   Avg_Bicycles_per_Hour example_results = 2"
proof -
  have run: "analyze_data example_data ''traffic_data21062024.csv'' = Inr example_results"
    by code_simp
  have c: "bucket_count (field_is ''VehicleType'' ''Bicycle'') example_data h =
             (if h = ''09'' then 2 else 0)" for h
    by (simp add: bucket_count_def example_data_def observation_def field_is_def hour_bucket_def
          get_def split_first_def)
  have B: "{h. 0 < bucket_count (field_is ''VehicleType'' ''Bicycle'') example_data h} = {''09''}"
    by (auto simp: c)
  have v: "Avg_Bicycles_per_Hour example_results = 2"
    by (simp add: example_results_def)
  have e: "py_round (binary64 2) = 2"
    by code_simp
  from avg_bicycles_per_hour_rounded [OF run] show ?thesis
    using run v e by (simp add: B c)
qed

subsection \<open>C7: the empty dataset\<close>

text \<open>
  C7, as amended. The analysis of an empty dataset returns a result: every count, both
  percentages and the average are \<open>0\<close> and the list of peak hours is empty, and the loop
  of \<^verbatim>\<open>main\<close> reports it as a result. The grouping program does not accept a file
  without rows: \<^verbatim>\<open>load_csv_file\<close> raises ValueError ("CSV file is empty."), reports
  "Failed to load file" and does not call \<^verbatim>\<open>process_data\<close>; the table is empty, as
  \<^verbatim>\<open>clear_previous_data\<close> left it.
\<close>

theorem empty_dataset:
  "analyze_data [] filename = Inr (empty_results filename) \<and>
   (fs filename = Some [] \<longrightarrow> main_pass fs filename = Results_saved (empty_results filename)) \<and>
   session_pass (Loaded []) pick s =
     (Failed_to_load ValueError,
      \<lparr> current_data = Some [], date = PNone, traffic_summary = Map.empty \<rparr>)"
proof -
  have a: "analyze_data [] filename = Inr (empty_results filename)"
    by (simp add: analyze_data_def bind_e_def trucks_def electric_vehicles_def
          two_wheeled_vehicles_def elm_buses_north_def no_turns_def over_speed_def
          elm_avenue_vehicles_def hanley_highway_vehicles_def elm_scooters_def percentage_def
          avg_bicycles_per_hour_def peak_hour_count_def peak_hours_def rain_hours_def
          empty_results_def)
  have m: "main_pass fs filename = Results_saved (empty_results filename)"
    if "fs filename = Some []"
    using that a by (simp add: main_pass_def process_csv_data_def bind_e_def)
  have l: "session_pass (Loaded []) pick s =
     (Failed_to_load ValueError,
      \<lparr> current_data = Some [], date = PNone, traffic_summary = Map.empty \<rparr>)"
    by (simp add: session_pass_def clear_previous_data_const load_csv_file_def)
  from a m l show ?thesis
    by blast
qed

theorem empty_dataset_witness:
  "[''traffic_data21062024.csv'' \<mapsto> []] ''traffic_data21062024.csv'' = Some [] \<and>
   main_pass [''traffic_data21062024.csv'' \<mapsto> []] ''traffic_data21062024.csv''
     = Results_saved (empty_results ''traffic_data21062024.csv'') \<and>
   Total_Vehicles (empty_results ''traffic_data21062024.csv'') = 0 \<and>
   Peak_Hours_Hanley_Highway_Westway (empty_results ''traffic_data21062024.csv'') = [] \<and>
   traffic_summary (snd (session_pass (Loaded []) 0 (loaded example_data stale_summary)))
     = Map.empty"
proof -
  have in_fs: "[''traffic_data21062024.csv'' \<mapsto> []] ''traffic_data21062024.csv'' = Some []"
    by simp
  from empty_dataset
         [of "''traffic_data21062024.csv''" "[''traffic_data21062024.csv'' \<mapsto> []]" 0
             "loaded example_data stale_summary"]
       in_fs
  show ?thesis
    by (simp add: empty_results_def)
qed

text \<open>
  The claim as stated fails where it says that no component raises on a source with no
  records: the loader of the grouping program raises ValueError for it (lines 98 and
  99) and reports a failure.
\<close>

theorem empty_file_fails_to_load:
  "fst (session_pass (Loaded []) 0 init_processor) = Failed_to_load ValueError"
  by (simp add: session_pass_def load_csv_file_def)

subsection \<open>C8: the total\<close>

text \<open>
  C8. The total-vehicles metric of a result is the length of the dataset.
\<close>

theorem total_vehicles_is_length:
  assumes "analyze_data data filename = Inr res"
  shows "Total_Vehicles res = length data"
  using analyze_data_Inr [OF assms] by blast

theorem total_vehicles_is_length_witness:
  "analyze_data example_data ''traffic_data21062024.csv'' = Inr example_results \<and>
   Total_Vehicles example_results = 8 \<and> length example_data = 8"
proof -
  have run: "analyze_data example_data ''traffic_data21062024.csv'' = Inr example_results"
    by code_simp
  have "length example_data = 8"
    by (simp add: example_data_def)
  with total_vehicles_is_length [OF run] run show ?thesis
    by simp
qed

subsection \<open>C9: isolation of datasets\<close>

text \<open>
  C9. What a pass of the session leaves behind depends on the file of this pass alone:
  whatever state earlier datasets left in the processor, one pass of the loop of
  \<^verbatim>\<open>handle_user_interaction\<close> (\<^verbatim>\<open>clear_previous_data\<close>, then \<^verbatim>\<open>load_csv_file\<close>) ends
  with the same outcome and the same processor state, summary included, because the
  pass begins by emptying the summary. Moreover \<^verbatim>\<open>process_data\<close> itself, run on a
  dataset and a date that are not empty, empties the summary before it counts (line
  118): two runs on the same rows and date from different summaries end with the same
  outcome and the same summary. (For an empty dataset or date \<^verbatim>\<open>process_data\<close>
  returns at its guard and leaves the summary as it is; in a session the summary is
  empty at that point.)
\<close>

theorem dataset_isolation:
  "session_pass choice pick s1 = session_pass choice pick s2 \<and>
   traffic_summary (clear_previous_data s1) = Map.empty \<and>
   (current_data s1 = current_data s2 \<and> date s1 = date s2 \<and>
    current_data s1 \<noteq> None \<and> current_data s1 \<noteq> Some [] \<and> truthy (date s1) \<longrightarrow>
      fst (process_data s1) = fst (process_data s2) \<and>
      traffic_summary (snd (process_data s1)) = traffic_summary (snd (process_data s2)))"
proof -
  have "session_pass choice pick s1 = session_pass choice pick s2"
    by (simp add: session_pass_def clear_previous_data_const)
  moreover have "traffic_summary (clear_previous_data s1) = Map.empty"
    by (simp add: clear_previous_data_const)
  moreover have "fst (process_data s1) = fst (process_data s2) \<and>
      traffic_summary (snd (process_data s1)) = traffic_summary (snd (process_data s2))"
    if "current_data s1 = current_data s2" "date s1 = date s2"
       "current_data s1 \<noteq> None" "current_data s1 \<noteq> Some []" "truthy (date s1)"
  proof -
    from that obtain rows where rows: "current_data s1 = Some rows" "rows \<noteq> []"
      by auto
    show ?thesis
      using process_data_group [of s1 rows] process_data_group [of s2 rows] that rows
      by simp
  qed
  ultimately show ?thesis
    by blast
qed

theorem dataset_isolation_witness:
  "current_data (loaded collision_data stale_summary) = current_data (loaded collision_data Map.empty) \<and>
   date (loaded collision_data stale_summary) = date (loaded collision_data Map.empty) \<and>
   current_data (loaded collision_data stale_summary) \<noteq> None \<and>
   current_data (loaded collision_data stale_summary) \<noteq> Some [] \<and>
   truthy (date (loaded collision_data stale_summary)) \<and>
   traffic_summary (loaded collision_data stale_summary) 17 \<noteq> None \<and>
   traffic_summary (snd (process_data (loaded collision_data stale_summary)))
     = traffic_summary (snd (process_data (loaded collision_data Map.empty))) \<and>
   traffic_summary (snd (process_data (loaded collision_data stale_summary))) 17 = None \<and>
   session_pass (Loaded collision_data) 0 (loaded example_data stale_summary)
     = session_pass (Loaded collision_data) 0 init_processor"
proof -
  have h: "current_data (loaded collision_data stale_summary) = current_data (loaded collision_data Map.empty)"
    "date (loaded collision_data stale_summary) = date (loaded collision_data Map.empty)"
    "current_data (loaded collision_data stale_summary) \<noteq> None"
    "current_data (loaded collision_data stale_summary) \<noteq> Some []"
    "truthy (date (loaded collision_data stale_summary))"
    "traffic_summary (loaded collision_data stale_summary) 17 \<noteq> None"
    by (simp_all add: loaded_def collision_data_def stale_summary_def)
  have fresh: "traffic_summary (snd (process_data (loaded collision_data Map.empty))) 17 = None"
    by (simp add: process_data_def loaded_def collision_data_def observation_def getitem_def
          extract_hour_def split_first_def py_int_def strip_def is_space_def digits_def
          is_digit_def digit_val_def get_default_def add_vehicle_def)
  from dataset_isolation
         [of "Loaded collision_data" 0 "loaded example_data stale_summary" init_processor]
  have pass: "session_pass (Loaded collision_data) 0 (loaded example_data stale_summary)
     = session_pass (Loaded collision_data) 0 init_processor"
    by blast
  from dataset_isolation
         [of choice pick "loaded collision_data stale_summary" "loaded collision_data Map.empty"]
       h
  have "traffic_summary (snd (process_data (loaded collision_data stale_summary)))
     = traffic_summary (snd (process_data (loaded collision_data Map.empty)))"
    by blast
  with h fresh pass show ?thesis
    by simp
qed

subsection \<open>C10: the table after a stop\<close>

text \<open>
  C10. The grouping is not atomic. Let the rows before an offending row all pass the
  loop and give the table \<open>t\<close>, and let the offending row be of the date and either fail
  the extraction of the hour with KeyError or ValueError, or have an hour but a
  junction name that is \<^verbatim>\<open>None\<close> or empty. Then \<^verbatim>\<open>process_data\<close> stops at that row
  with the message "Invalid Data" or "Missing Data", and the summary it leaves is \<open>t\<close>:
  each cell holds the number of rows before the offending one that were counted in it.
  The summary is neither restored to what it was before the call nor emptied, and the
  rows after the offending one are not counted.
\<close>

theorem partial_table_kept_on_error:
  assumes "truthy d"
      and "group_rows d pre Map.empty = (Completed, t)"
      and "r ''Date'' = Some d"
      and "extract_hour r = Inl KeyError \<or> extract_hour r = Inl ValueError \<or>
           (\<exists>h. extract_hour r = Inr h \<and> \<not> truthy (get_default r ''JunctionName'' (PStr ''Unknown'')))"
  shows "process_data \<lparr> current_data = Some (pre @ r # post), date = d, traffic_summary = prior \<rparr> =
           (case extract_hour r of Inl e \<Rightarrow> Invalid_Data (get r ''timeOfDay'') | Inr h \<Rightarrow> Missing_Data,
            \<lparr> current_data = Some (pre @ r # post), date = d, traffic_summary = t \<rparr>) \<and>
         (\<forall>h j. volume t h j = length (filter (counted_in d h j) pre))"
proof -
  have stop: "group_rows d (r # post) t =
                (case extract_hour r of Inl e \<Rightarrow> Invalid_Data (get r ''timeOfDay'') | Inr h \<Rightarrow> Missing_Data, t)"
    using assms(3,4)
    by (auto simp: getitem_def split: sum.splits pyval.splits)
  have "group_rows d (pre @ r # post) Map.empty = group_rows d (r # post) t"
    by (simp add: group_rows_append assms(2))
  then have "process_data \<lparr> current_data = Some (pre @ r # post), date = d, traffic_summary = prior \<rparr> =
           (case extract_hour r of Inl e \<Rightarrow> Invalid_Data (get r ''timeOfDay'') | Inr h \<Rightarrow> Missing_Data,
            \<lparr> current_data = Some (pre @ r # post), date = d, traffic_summary = t \<rparr>)"
    using assms(1) stop
    by (simp add: process_data_group)
  moreover have "volume t h j = length (filter (counted_in d h j) pre)" for h j
    using group_rows_Completed [OF assms(2), of h j] by (simp add: volume_def)
  ultimately show ?thesis
    by blast
qed

theorem partial_table_kept_on_error_witness:
  "truthy (PStr ''21/06/2024'') \<and>
   group_rows (PStr ''21/06/2024'') [broken_data ! 0] Map.empty
     = (Completed, [8 \<mapsto> [''Birmingham Road'' \<mapsto> 1]]) \<and>
   (broken_data ! 1) ''Date'' = Some (PStr ''21/06/2024'') \<and>
   extract_hour (broken_data ! 1) = Inl ValueError \<and>
   process_data (loaded broken_data stale_summary)
     = (Invalid_Data (PStr []), loaded broken_data [8 \<mapsto> [''Birmingham Road'' \<mapsto> 1]]) \<and>
   volume [8 \<mapsto> [''Birmingham Road'' \<mapsto> 1]] 8 ''Birmingham Road'' = 1 \<and>
   length (filter (counted_in (PStr ''21/06/2024'') 8 ''Birmingham Road'') [broken_data ! 0]) = 1"
proof -
  have d: "truthy (PStr ''21/06/2024'')"
    by simp
  have pre: "group_rows (PStr ''21/06/2024'') [broken_data ! 0] Map.empty
     = (Completed, [8 \<mapsto> [''Birmingham Road'' \<mapsto> 1]])"
    by (simp add: broken_data_def observation_def getitem_def extract_hour_def split_first_def
          py_int_def strip_def is_space_def digits_def is_digit_def digit_val_def
          get_default_def add_vehicle_def)
  have r: "(broken_data ! 1) ''Date'' = Some (PStr ''21/06/2024'')"
    by (simp add: broken_data_def observation_def)
  have e: "extract_hour (broken_data ! 1) = Inl ValueError"
    by (simp add: broken_data_def observation_def extract_hour_def split_first_def py_int_def
          strip_def)
  have g: "get (broken_data ! 1) ''timeOfDay'' = PStr []"
    by (simp add: broken_data_def observation_def get_def)
  have split: "[broken_data ! 0] @ (broken_data ! 1) # [broken_data ! 2] = broken_data"
    by (simp add: broken_data_def)
  have v: "volume [8 \<mapsto> [''Birmingham Road'' \<mapsto> 1]] 8 ''Birmingham Road'' = 1"
    by (simp add: volume_def)
  have off: "extract_hour (broken_data ! 1) = Inl KeyError \<or>
             extract_hour (broken_data ! 1) = Inl ValueError \<or>
             (\<exists>h. extract_hour (broken_data ! 1) = Inr h \<and>
                  \<not> truthy (get_default (broken_data ! 1) ''JunctionName'' (PStr ''Unknown'')))"
    using e by blast
  note inst = partial_table_kept_on_error
         [where d = "PStr ''21/06/2024''" and pre = "[broken_data ! 0]"
            and t = "[8 \<mapsto> [''Birmingham Road'' \<mapsto> 1]]" and r = "broken_data ! 1"
            and post = "[broken_data ! 2]" and prior = stale_summary, OF d pre r off]
  have "process_data (loaded broken_data stale_summary)
          = (Invalid_Data (PStr []), loaded broken_data [8 \<mapsto> [''Birmingham Road'' \<mapsto> 1]]) \<and>
        (\<forall>h j. volume [8 \<mapsto> [''Birmingham Road'' \<mapsto> 1]] h j
                = length (filter (counted_in (PStr ''21/06/2024'') h j) [broken_data ! 0]))"
    using inst unfolding split e g loaded_def by simp
  with d pre r e v show ?thesis
    by metis
qed

end
